theory Spec2Isabelle
  imports Complex_Main
begin

section \<open>JavaScript numbers\<close>

text \<open>
  A JavaScript number is modelled as an exact real or one of the three non-finite values.
  Arithmetic on finite values is exact (no rounding, no overflow, a single zero); the
  non-finite values follow the IEEE rules that the source relies on: \<open>NaN\<close> propagates
  and every comparison with it is false.
\<close>

datatype jsnum = Num real | PInf | NInf | NaN

fun isFinite :: "jsnum \<Rightarrow> bool" where
  "isFinite (Num _) = True"
| "isFinite _ = False"

instantiation jsnum :: "{plus, minus, uminus, times, inverse, abs, ord}"
begin

fun uminus_jsnum :: "jsnum \<Rightarrow> jsnum" where
  "uminus_jsnum (Num a) = Num (- a)"
| "uminus_jsnum PInf = NInf"
| "uminus_jsnum NInf = PInf"
| "uminus_jsnum NaN = NaN"

fun plus_jsnum :: "jsnum \<Rightarrow> jsnum \<Rightarrow> jsnum" where
  "plus_jsnum (Num a) (Num b) = Num (a + b)"
| "plus_jsnum NaN _ = NaN"
| "plus_jsnum _ NaN = NaN"
| "plus_jsnum PInf NInf = NaN"
| "plus_jsnum NInf PInf = NaN"
| "plus_jsnum PInf _ = PInf"
| "plus_jsnum _ PInf = PInf"
| "plus_jsnum NInf _ = NInf"
| "plus_jsnum _ NInf = NInf"

definition minus_jsnum :: "jsnum \<Rightarrow> jsnum \<Rightarrow> jsnum" where
  "minus_jsnum a b = a + (- b)"

fun times_jsnum :: "jsnum \<Rightarrow> jsnum \<Rightarrow> jsnum" where
  "times_jsnum (Num a) (Num b) = Num (a * b)"
| "times_jsnum NaN _ = NaN"
| "times_jsnum _ NaN = NaN"
| "times_jsnum (Num a) PInf = (if a = 0 then NaN else if 0 < a then PInf else NInf)"
| "times_jsnum (Num a) NInf = (if a = 0 then NaN else if 0 < a then NInf else PInf)"
| "times_jsnum PInf (Num b) = (if b = 0 then NaN else if 0 < b then PInf else NInf)"
| "times_jsnum NInf (Num b) = (if b = 0 then NaN else if 0 < b then NInf else PInf)"
| "times_jsnum PInf PInf = PInf"
| "times_jsnum PInf NInf = NInf"
| "times_jsnum NInf PInf = NInf"
| "times_jsnum NInf NInf = PInf"

fun divide_jsnum :: "jsnum \<Rightarrow> jsnum \<Rightarrow> jsnum" where
  "divide_jsnum (Num a) (Num b) =
     (if b = 0 then (if a = 0 then NaN else if 0 < a then PInf else NInf) else Num (a / b))"
| "divide_jsnum NaN _ = NaN"
| "divide_jsnum _ NaN = NaN"
| "divide_jsnum (Num a) PInf = Num 0"
| "divide_jsnum (Num a) NInf = Num 0"
| "divide_jsnum PInf (Num b) = (if 0 \<le> b then PInf else NInf)"
| "divide_jsnum NInf (Num b) = (if 0 \<le> b then NInf else PInf)"
| "divide_jsnum PInf PInf = NaN"
| "divide_jsnum PInf NInf = NaN"
| "divide_jsnum NInf PInf = NaN"
| "divide_jsnum NInf NInf = NaN"

definition inverse_jsnum :: "jsnum \<Rightarrow> jsnum" where
  "inverse_jsnum a = divide (Num 1) a"

fun abs_jsnum :: "jsnum \<Rightarrow> jsnum" where
  "abs_jsnum (Num a) = Num \<bar>a\<bar>"
| "abs_jsnum PInf = PInf"
| "abs_jsnum NInf = PInf"
| "abs_jsnum NaN = NaN"

fun less_jsnum :: "jsnum \<Rightarrow> jsnum \<Rightarrow> bool" where
  "less_jsnum (Num a) (Num b) = (a < b)"
| "less_jsnum NaN _ = False"
| "less_jsnum _ NaN = False"
| "less_jsnum PInf _ = False"
| "less_jsnum _ NInf = False"
| "less_jsnum NInf _ = True"
| "less_jsnum _ PInf = True"

fun less_eq_jsnum :: "jsnum \<Rightarrow> jsnum \<Rightarrow> bool" where
  "less_eq_jsnum (Num a) (Num b) = (a \<le> b)"
| "less_eq_jsnum NaN _ = False"
| "less_eq_jsnum _ NaN = False"
| "less_eq_jsnum NInf _ = True"
| "less_eq_jsnum _ PInf = True"
| "less_eq_jsnum PInf _ = False"
| "less_eq_jsnum _ NInf = False"

instance ..

end

section \<open>Slope-speed model\<close>

text \<open>\<open>pickSpeedFromRange(minKmh, maxKmh, prudence)\<close>.\<close>

definition pickSpeedFromRange :: "jsnum \<Rightarrow> jsnum \<Rightarrow> jsnum \<Rightarrow> jsnum" where
  "pickSpeedFromRange minKmh maxKmh prudence = maxKmh - prudence * (maxKmh - minKmh)"

text \<open>
  \<open>calculateSpeedForSlope(slopePct, vFlatKmh, profile, prudence)\<close>: the chain of
  \<open>if\<close> statements of the source, in the source's order, with the final
  \<open>return vFlatKmh\<close> that is reached when every comparison is false.
\<close>

definition calculateSpeedForSlope :: "jsnum \<Rightarrow> jsnum \<Rightarrow> string \<Rightarrow> jsnum \<Rightarrow> jsnum" where
  "calculateSpeedForSlope slopePct vFlatKmh profile prudence =
    (if slopePct \<ge> Num (-1) \<and> slopePct \<le> Num 1 then vFlatKmh
     else if slopePct > Num 1 \<and> slopePct \<le> Num 12 then
       vFlatKmh / (Num 1 + Num 0.04 * slopePct)
     else if slopePct > Num 12 \<and> slopePct \<le> Num 15 then
       (if profile = ''trained'' then pickSpeedFromRange (Num 5.45) (Num 6.0) prudence
        else pickSpeedFromRange (Num 4.62) (Num 5.45) prudence)
     else if slopePct > Num 15 \<and> slopePct \<le> Num 20 then
       (if profile = ''trained'' then pickSpeedFromRange (Num 4.80) (Num 5.45) prudence
        else pickSpeedFromRange (Num 4.0) (Num 4.62) prudence)
     else if slopePct > Num 20 then
       (if profile = ''trained'' then pickSpeedFromRange (Num 4.0) (Num 4.62) prudence
        else pickSpeedFromRange (Num 3.33) (Num 4.0) prudence)
     else
       (let absSlope = \<bar>slopePct\<bar> in
        if slopePct < Num (-1) \<and> slopePct \<ge> Num (-3) then
          vFlatKmh / (Num 1 - Num 0.02 * absSlope)
        else if slopePct < Num (-3) \<and> slopePct \<ge> Num (-4) then
          vFlatKmh / ((Num 1 - Num 0.02 * absSlope) * Num 1.05)
        else if slopePct < Num (-4) \<and> slopePct \<ge> Num (-6) then
          vFlatKmh / ((Num 1 - Num 0.02 * absSlope) * Num 1.10)
        else if slopePct < Num (-6) \<and> slopePct \<ge> Num (-8) then
          pickSpeedFromRange (Num 5.45) (Num 6.67) prudence
        else if slopePct < Num (-8) \<and> slopePct \<ge> Num (-12) then
          pickSpeedFromRange (Num 4.62) (Num 6.0) prudence
        else if slopePct < Num (-12) then
          pickSpeedFromRange (Num 4.0) (Num 5.45) prudence
        else vFlatKmh))"

text \<open>
  The command-line variant, \<open>speedForSlopeKmh(pctSlope, vFlatKmh, profile, prudence)\<close>: the
  same chain of early returns, with \<open>pickSpeedFromRangeKmh\<close> (the same formula) and with
  the steepest downhill range as the final \<open>return\<close>.
\<close>

definition speedForSlopeKmh :: "jsnum \<Rightarrow> jsnum \<Rightarrow> string \<Rightarrow> jsnum \<Rightarrow> jsnum" where
  "speedForSlopeKmh pctSlope vFlatKmh profile prudence =
    (if pctSlope \<ge> Num (-1) \<and> pctSlope \<le> Num 1 then vFlatKmh
     else if pctSlope > Num 1 \<and> pctSlope \<le> Num 12 then
       vFlatKmh / (Num 1 + Num 0.04 * pctSlope)
     else if pctSlope > Num 12 \<and> pctSlope \<le> Num 15 then
       (if profile = ''trained'' then pickSpeedFromRange (Num 5.45) (Num 6.0) prudence
        else pickSpeedFromRange (Num 4.62) (Num 5.45) prudence)
     else if pctSlope > Num 15 \<and> pctSlope \<le> Num 20 then
       (if profile = ''trained'' then pickSpeedFromRange (Num 4.80) (Num 5.45) prudence
        else pickSpeedFromRange (Num 4.0) (Num 4.62) prudence)
     else if pctSlope > Num 20 then
       (if profile = ''trained'' then pickSpeedFromRange (Num 4.0) (Num 4.62) prudence
        else pickSpeedFromRange (Num 3.33) (Num 4.0) prudence)
     else
       (let absP = \<bar>pctSlope\<bar> in
        if pctSlope < Num (-1) \<and> pctSlope \<ge> Num (-3) then
          vFlatKmh / (Num 1 - Num 0.02 * absP)
        else if pctSlope < Num (-3) \<and> pctSlope \<ge> Num (-4) then
          vFlatKmh / ((Num 1 - Num 0.02 * absP) * Num 1.05)
        else if pctSlope < Num (-4) \<and> pctSlope \<ge> Num (-6) then
          vFlatKmh / ((Num 1 - Num 0.02 * absP) * Num 1.10)
        else if pctSlope < Num (-6) \<and> pctSlope \<ge> Num (-8) then
          pickSpeedFromRange (Num 5.45) (Num 6.67) prudence
        else if pctSlope < Num (-8) \<and> pctSlope \<ge> Num (-12) then
          pickSpeedFromRange (Num 4.62) (Num 6.0) prudence
        else pickSpeedFromRange (Num 4.0) (Num 5.45) prudence))"

subsection \<open>The table of the specification\<close>

text \<open>
  The specification's \<open>range-pick(minKmh, maxKmh) = maxKmh - caution * (maxKmh - minKmh)\<close>
  and its piecewise table, row by row, over finite numbers.
\<close>

definition spec_range_pick :: "real \<Rightarrow> real \<Rightarrow> real \<Rightarrow> real" where
  "spec_range_pick caution minKmh maxKmh = maxKmh - caution * (maxKmh - minKmh)"

definition spec_by_profile :: "string \<Rightarrow> real \<Rightarrow> real \<Rightarrow> real" where
  "spec_by_profile profile trained standard = (if profile = ''trained'' then trained else standard)"

definition spec_speed_table :: "real \<Rightarrow> real \<Rightarrow> string \<Rightarrow> real \<Rightarrow> real" where
  "spec_speed_table slope flatSpeedKmh profile caution =
    (if -1 \<le> slope \<and> slope \<le> 1 then flatSpeedKmh
     else if 1 < slope \<and> slope \<le> 12 then flatSpeedKmh / (1 + 0.04 * slope)
     else if 12 < slope \<and> slope \<le> 15 then
       spec_by_profile profile (spec_range_pick caution 5.45 6.00) (spec_range_pick caution 4.62 5.45)
     else if 15 < slope \<and> slope \<le> 20 then
       spec_by_profile profile (spec_range_pick caution 4.80 5.45) (spec_range_pick caution 4.00 4.62)
     else if 20 < slope then
       spec_by_profile profile (spec_range_pick caution 4.00 4.62) (spec_range_pick caution 3.33 4.00)
     else if -3 \<le> slope \<and> slope < -1 then flatSpeedKmh / (1 - 0.02 * \<bar>slope\<bar>)
     else if -4 \<le> slope \<and> slope < -3 then flatSpeedKmh / (1 - 0.02 * \<bar>slope\<bar>) / 1.05
     else if -6 \<le> slope \<and> slope < -4 then flatSpeedKmh / (1 - 0.02 * \<bar>slope\<bar>) / 1.10
     else if -8 \<le> slope \<and> slope < -6 then spec_range_pick caution 5.45 6.67
     else if -12 \<le> slope \<and> slope < -8 then spec_range_pick caution 4.62 6.00
     else spec_range_pick caution 4.00 5.45)"


section \<open>Segments and total moving time\<close>

text \<open>
  A segment as \<open>calculatePacing\<close> builds it:
  \<open>{index, fromM, toM, lengthM, deltaElevM, slopePct}\<close>.
\<close>

record segment =
  index :: nat
  fromM :: jsnum
  toM :: jsnum
  lengthM :: jsnum
  deltaElevM :: jsnum
  slopePct :: jsnum

text \<open>
  \<open>calculateMovingTimeForVflat(segments, vFlatKmh, profile, prudence)\<close>. The \<open>for\<close>
  loop over the segments carries \<open>totalTime\<close>; the \<open>return Infinity\<close> inside the loop
  leaves the function at once.
\<close>

fun movingTimeLoop :: "segment list \<Rightarrow> jsnum \<Rightarrow> string \<Rightarrow> jsnum \<Rightarrow> jsnum \<Rightarrow> jsnum" where
  "movingTimeLoop [] vFlatKmh profile prudence totalTime = totalTime"
| "movingTimeLoop (seg # segs) vFlatKmh profile prudence totalTime =
     (let distKm = lengthM seg / Num 1000;
          speed = calculateSpeedForSlope (slopePct seg) vFlatKmh profile prudence
      in if \<not> isFinite speed \<or> speed \<le> Num 0 then PInf
         else movingTimeLoop segs vFlatKmh profile prudence
                (totalTime + (distKm / speed) * Num 3600))"

definition calculateMovingTimeForVflat :: "segment list \<Rightarrow> jsnum \<Rightarrow> string \<Rightarrow> jsnum \<Rightarrow> jsnum" where
  "calculateMovingTimeForVflat segments vFlatKmh profile prudence =
     movingTimeLoop segments vFlatKmh profile prudence (Num 0)"

section \<open>Flat-speed calibration\<close>

text \<open>
  \<open>findVflatForTargetTime(segments, targetMovingTimeSec, profile, prudence, vMin, vMax,
  iterations)\<close>. The loop \<open>for (let i = 0; i < iterations; i++)\<close> with its two variables
  \<open>lo\<close> and \<open>hi\<close>; the iteration count is a natural number. The defaults
  \<open>vMin = 3\<close>, \<open>vMax = 25\<close>, \<open>iterations = 40\<close> are passed by the caller. The
  command-line variant runs the same loop inline, after a feasibility test of its own.
\<close>

function bisectLoop ::
  "segment list \<Rightarrow> jsnum \<Rightarrow> string \<Rightarrow> jsnum \<Rightarrow> nat \<Rightarrow> nat \<Rightarrow> jsnum \<times> jsnum \<Rightarrow> jsnum \<times> jsnum" where
  "bisectLoop segments targetMovingTimeSec profile prudence i iterations (lo, hi) =
     (if i < iterations then
        (let mid = (lo + hi) / Num 2;
             timeMid = calculateMovingTimeForVflat segments mid profile prudence
         in if timeMid > targetMovingTimeSec
            then bisectLoop segments targetMovingTimeSec profile prudence (i + 1) iterations (mid, hi)
            else bisectLoop segments targetMovingTimeSec profile prudence (i + 1) iterations (lo, mid))
      else (lo, hi))"
  by pat_completeness auto
termination
  by (relation "measure (\<lambda>(segments, target, profile, prudence, i, iterations, b). iterations - i)") auto

definition findVflatForTargetTime ::
  "segment list \<Rightarrow> jsnum \<Rightarrow> string \<Rightarrow> jsnum \<Rightarrow> jsnum \<Rightarrow> jsnum \<Rightarrow> nat \<Rightarrow> jsnum" where
  "findVflatForTargetTime segments targetMovingTimeSec profile prudence vMin vMax iterations =
     (case bisectLoop segments targetMovingTimeSec profile prudence 0 iterations (vMin, vMax) of
        (lo, hi) \<Rightarrow> (lo + hi) / Num 2)"

subsection \<open>One bisection step, as the specification words it\<close>

text \<open>
  Evaluate the total time at the midpoint of the bracket; if it exceeds the target, raise
  the lower bound to the midpoint, else lower the upper bound to the midpoint.
\<close>

definition spec_bisection_step ::
  "segment list \<Rightarrow> jsnum \<Rightarrow> string \<Rightarrow> jsnum \<Rightarrow> jsnum \<times> jsnum \<Rightarrow> jsnum \<times> jsnum" where
  "spec_bisection_step segments target profile caution bracket =
     (let midpoint = (fst bracket + snd bracket) / Num 2
      in if calculateMovingTimeForVflat segments midpoint profile caution > target
         then (midpoint, snd bracket) else (fst bracket, midpoint))"

definition spec_bracket_midpoint :: "jsnum \<times> jsnum \<Rightarrow> jsnum" where
  "spec_bracket_midpoint bracket = (fst bracket + snd bracket) / Num 2"

section \<open>Elevation conditioning\<close>

text \<open>
  \<open>fillMissingElevation(elevations)\<close>. The first loop runs over the copy from the left
  and carries \<open>last\<close> (here \<open>lastVal\<close>; \<open>null\<close> is \<open>None\<close>); the second runs from the
  right and carries \<open>next\<close> (here \<open>nextVal\<close>); the final \<open>map\<close> replaces what is still
  not finite by 0. The entries are numbers.
\<close>

fun forwardFill :: "jsnum option \<Rightarrow> jsnum list \<Rightarrow> jsnum list" where
  "forwardFill lastVal [] = []"
| "forwardFill lastVal (x # xs) =
     (if isFinite x then x # forwardFill (Some x) xs
      else (case lastVal of
              Some l \<Rightarrow> l # forwardFill lastVal xs
            | None \<Rightarrow> x # forwardFill lastVal xs))"

fun backwardFill :: "jsnum list \<Rightarrow> jsnum list \<times> jsnum option" where
  "backwardFill [] = ([], None)"
| "backwardFill (x # xs) =
     (case backwardFill xs of
        (ys, nextVal) \<Rightarrow>
          if isFinite x then (x # ys, Some x)
          else (case nextVal of
                  Some n \<Rightarrow> (n # ys, nextVal)
                | None \<Rightarrow> (x # ys, nextVal)))"

definition fillMissingElevation :: "jsnum list \<Rightarrow> jsnum list" where
  "fillMissingElevation elevations =
     map (\<lambda>v. if isFinite v then v else Num 0)
       (fst (backwardFill (forwardFill None elevations)))"

section \<open>Track resampling\<close>

text \<open>
  A track point \<open>{lat, lon, ele}\<close> and a resampled point
  \<open>{index, distanceM, lat, lon, ele}\<close> (its \<open>index\<close> field is named \<open>sampleIndex\<close>
  here, since segments have an \<open>index\<close> field too).
\<close>

record point =
  lat :: jsnum
  lon :: jsnum
  ele :: jsnum

record resampledPoint = point +
  sampleIndex :: nat
  distanceM :: jsnum

datatype error = TypeError | ParseError | FormatError | StopTimeError

text \<open>JavaScript's strict equality on numbers: \<open>NaN === NaN\<close> is false.\<close>

definition strictEq :: "jsnum \<Rightarrow> jsnum \<Rightarrow> bool" where
  "strictEq a b = (a \<noteq> NaN \<and> a = b)"

text \<open>
  The loop \<open>for (let d = 0; d < total; d += stepM) targets.push(d)\<close> (\<open>total\<close> is
  \<open>totalD\<close> here). It does not end when
  \<open>stepM\<close> is not positive (or \<open>total\<close> is infinite), so it is a partial function: not
  returning is \<open>None\<close>.
\<close>

partial_function (option) targetsLoop :: "jsnum \<Rightarrow> jsnum \<Rightarrow> jsnum \<Rightarrow> jsnum list \<Rightarrow> jsnum list option" where
  "targetsLoop totalD stepM d targets =
     (if d < totalD then targetsLoop totalD stepM (d + stepM) (targets @ [d])
      else Some targets)"

declare targetsLoop.simps [code]

text \<open>The inner loop \<open>while (j < cumulativeDistances.length && cumulativeDistances[j] < target) j++\<close>.\<close>

function advancePointer :: "jsnum list \<Rightarrow> jsnum \<Rightarrow> nat \<Rightarrow> nat" where
  "advancePointer cumulativeDistances target j =
     (if j < length cumulativeDistances \<and> cumulativeDistances ! j < target
      then advancePointer cumulativeDistances target (j + 1) else j)"
  by pat_completeness auto
termination
  by (relation "measure (\<lambda>(cumulativeDistances, target, j). length cumulativeDistances - j)") auto

declare advancePointer.simps [simp del]

text \<open>
  The loop over the targets, with the pointer \<open>j\<close> kept from one target to the next.
  Reading \<open>p0.lat\<close> or \<open>p1.lat\<close> of a point that the array does not hold throws a
  \<open>TypeError\<close>; that is the case when \<open>j - 1\<close> is negative or \<open>j\<close> is past the end of
  \<open>points\<close>, and with fewer than two cumulative distances.
\<close>

fun resampleLoop ::
  "point list \<Rightarrow> jsnum list \<Rightarrow> jsnum list \<Rightarrow> nat \<Rightarrow> nat \<Rightarrow> error + resampledPoint list" where
  "resampleLoop points cumulativeDistances [] i j = Inr []"
| "resampleLoop points cumulativeDistances (target # targets) i j =
     (let j1 = advancePointer cumulativeDistances target j;
          j2 = (if j1 \<ge> length cumulativeDistances then length cumulativeDistances - 1 else j1)
      in if length cumulativeDistances < 2 \<or> j2 < 1 \<or> j2 \<ge> length points then Inl TypeError
         else
           (let d0 = cumulativeDistances ! (j2 - 1);
                d1 = cumulativeDistances ! j2;
                t = (if strictEq d1 d0 then Num 0 else (target - d0) / (d1 - d0));
                p0 = points ! (j2 - 1);
                p1 = points ! j2;
                sample = \<lparr>lat = lat p0 + (lat p1 - lat p0) * t,
                          lon = lon p0 + (lon p1 - lon p0) * t,
                          ele = ele p0 + (ele p1 - ele p0) * t,
                          sampleIndex = i, distanceM = target\<rparr>
            in case resampleLoop points cumulativeDistances targets (i + 1) j2 of
                 Inl e \<Rightarrow> Inl e
               | Inr resampled \<Rightarrow> Inr (sample # resampled)))"

text \<open>
  \<open>resamplePoints(points, cumulativeDistances, stepM)\<close>. Of an empty array the last element
  is \<open>undefined\<close>, which compares like \<open>NaN\<close>; the second loop then throws.
\<close>

definition resamplePoints :: "point list \<Rightarrow> jsnum list \<Rightarrow> jsnum \<Rightarrow> (error + resampledPoint list) option" where
  "resamplePoints points cumulativeDistances stepM =
     (let totalD = (if cumulativeDistances = [] then NaN else last cumulativeDistances)
      in case targetsLoop totalD stepM (Num 0) [] of
           None \<Rightarrow> None
         | Some targets \<Rightarrow> Some (resampleLoop points cumulativeDistances (targets @ [totalD]) 0 1))"

text \<open>
  The segments between consecutive resampled points, step 7 of \<open>calculatePacing\<close>:
  \<open>for (let i = 1; i < resampledPoints.length; i++)\<close> with \<open>a = resampledPoints[i - 1]\<close> and
  \<open>b = resampledPoints[i]\<close>.
\<close>

fun makeSegments :: "nat \<Rightarrow> resampledPoint list \<Rightarrow> segment list" where
  "makeSegments i (a # b # rest) =
     (let distM = distanceM b - distanceM a;
          deltaElev = ele b - ele a;
          slope = (if distM > Num 0 then (deltaElev / distM) * Num 100 else Num 0)
      in \<lparr>index = i - 1, fromM = distanceM a, toM = distanceM b, lengthM = distM,
          deltaElevM = deltaElev, slopePct = slope\<rparr> # makeSegments (i + 1) (b # rest))"
| "makeSegments i rest = []"

section \<open>Numeric helpers of the host language\<close>

text \<open>\<open>Math.round\<close>, \<open>Math.floor\<close>, \<open>Math.sin\<close>, \<open>Math.cos\<close>, \<open>Math.sqrt\<close>, \<open>Math.atan2\<close>.\<close>

fun js_round :: "jsnum \<Rightarrow> jsnum" where
  "js_round (Num a) = Num (of_int \<lfloor>a + 1/2\<rfloor>)"
| "js_round x = x"

fun js_floor :: "jsnum \<Rightarrow> jsnum" where
  "js_floor (Num a) = Num (of_int \<lfloor>a\<rfloor>)"
| "js_floor x = x"

fun js_sin :: "jsnum \<Rightarrow> jsnum" where
  "js_sin (Num a) = Num (sin a)"
| "js_sin _ = NaN"

fun js_cos :: "jsnum \<Rightarrow> jsnum" where
  "js_cos (Num a) = Num (cos a)"
| "js_cos _ = NaN"

fun js_sqrt :: "jsnum \<Rightarrow> jsnum" where
  "js_sqrt (Num a) = (if a < 0 then NaN else Num (sqrt a))"
| "js_sqrt PInf = PInf"
| "js_sqrt _ = NaN"

fun js_atan2 :: "jsnum \<Rightarrow> jsnum \<Rightarrow> jsnum" where
  "js_atan2 (Num y) (Num x) =
     (if 0 < x then Num (arctan (y / x))
      else if x < 0 then (if 0 \<le> y then Num (arctan (y / x) + pi) else Num (arctan (y / x) - pi))
      else if 0 < y then Num (pi / 2) else if y < 0 then Num (- pi / 2) else Num 0)"
| "js_atan2 NaN _ = NaN"
| "js_atan2 _ NaN = NaN"
| "js_atan2 (Num y) PInf = Num 0"
| "js_atan2 (Num y) NInf = (if 0 \<le> y then Num pi else Num (- pi))"
| "js_atan2 PInf (Num x) = Num (pi / 2)"
| "js_atan2 NInf (Num x) = Num (- pi / 2)"
| "js_atan2 PInf PInf = Num (pi / 4)"
| "js_atan2 PInf NInf = Num (3 * pi / 4)"
| "js_atan2 NInf PInf = Num (- pi / 4)"
| "js_atan2 NInf NInf = Num (- 3 * pi / 4)"

text \<open>\<open>x || 0\<close> on a number: 0 and \<open>NaN\<close> are falsy.\<close>

definition orZero :: "jsnum \<Rightarrow> jsnum" where
  "orZero x = (if x = NaN \<or> x = Num 0 then Num 0 else x)"

text \<open>
  \<open>Array.prototype.sort((a, b) => a - b)\<close> on numbers: \<open>a\<close> goes before \<open>b\<close> when the
  comparator is negative. On finite numbers every conforming sort gives this result.
\<close>

fun insertSorted :: "jsnum \<Rightarrow> jsnum list \<Rightarrow> jsnum list" where
  "insertSorted x [] = [x]"
| "insertSorted x (y # ys) = (if x - y < Num 0 then x # y # ys else y # insertSorted x ys)"

definition sortNumeric :: "jsnum list \<Rightarrow> jsnum list" where
  "sortNumeric xs = foldl (\<lambda>sorted x. insertSorted x sorted) [] xs"

section \<open>Time strings\<close>

text \<open>
  \<open>parseTimeToSeconds(timeStr)\<close>:
  \<open>timeStr.split(":").map(x => parseInt(x.trim(), 10))\<close>, then two or three parts, else the
  error. \<open>parseInt\<close> skips leading white space, reads an optional sign and the longest
  prefix of decimal digits, and is \<open>NaN\<close> when there is no digit.
\<close>

definition isSpace :: "char \<Rightarrow> bool" where
  "isSpace c = (c \<in> set [CHR '' '', CHR 0x09, CHR 0x0A, CHR 0x0B, CHR 0x0C, CHR 0x0D])"

definition isDigit :: "char \<Rightarrow> bool" where
  "isDigit c = (48 \<le> (of_char c :: nat) \<and> (of_char c :: nat) \<le> 57)"

definition trim :: "string \<Rightarrow> string" where
  "trim s = rev (dropWhile isSpace (rev (dropWhile isSpace s)))"

fun splitOn :: "char \<Rightarrow> string \<Rightarrow> string list" where
  "splitOn sep [] = [[]]"
| "splitOn sep (c # cs) =
     (case splitOn sep cs of
        part # parts \<Rightarrow> (if c = sep then [] # part # parts else (c # part) # parts)
      | [] \<Rightarrow> [[c]])"

definition digitsValue :: "string \<Rightarrow> nat" where
  "digitsValue ds = foldl (\<lambda>n c. 10 * n + (of_char c - 48)) 0 ds"

definition parseInt :: "string \<Rightarrow> jsnum" where
  "parseInt s =
     (let s1 = dropWhile isSpace s;
          negative = (s1 \<noteq> [] \<and> hd s1 = CHR ''-'');
          s2 = (if s1 \<noteq> [] \<and> (hd s1 = CHR ''-'' \<or> hd s1 = CHR ''+'') then tl s1 else s1);
          digits = takeWhile isDigit s2
      in if digits = [] then NaN
         else if negative then Num (- real (digitsValue digits))
         else Num (real (digitsValue digits)))"

definition parseTimeToSeconds :: "string \<Rightarrow> error + jsnum" where
  "parseTimeToSeconds timeStr =
     (let parts = map (\<lambda>x. parseInt (trim x)) (splitOn CHR '':'' timeStr)
      in if length parts = 2 then Inr (parts ! 0 * Num 3600 + parts ! 1 * Num 60)
         else if length parts = 3 then Inr (parts ! 0 * Num 3600 + parts ! 1 * Num 60 + parts ! 2)
         else Inl FormatError)"

section \<open>The pacing computation\<close>

subsection \<open>Track points\<close>

text \<open>
  \<open>parseGpxFile(xmlContent)\<close>. The regular-expression scan of the XML text and
  \<open>parseFloat\<close> are outside the model: the function takes, for every \<open><trkpt>\<close> the scan
  matches, the parsed latitude and longitude and the parsed \<open><ele>\<close> (\<open>None\<close> when the point
  has none). What follows is the source's: a missing or non-finite elevation is 0, a point
  with a non-finite coordinate is dropped, fewer than two points are an error.
\<close>

definition parseGpxFile :: "(jsnum \<times> jsnum \<times> jsnum option) list \<Rightarrow> error + point list" where
  "parseGpxFile trkpts =
     (let points =
            map (\<lambda>(la, lo, eleMatch).
                   let e = (case eleMatch of Some v \<Rightarrow> v | None \<Rightarrow> Num 0);
                       eleValue = (if isFinite e then e else Num 0)
                   in \<lparr>lat = la, lon = lo, ele = eleValue\<rparr>)
              (filter (\<lambda>(la, lo, eleMatch). isFinite la \<and> isFinite lo) trkpts)
      in if length points < 2 then Inl ParseError else Inr points)"

subsection \<open>Elevation gain and loss on raw points\<close>

text \<open>
  Step 2 of \<open>calculatePacing\<close>, and again inside every stage on the raw points of the
  stage: \<open>de = p[i].ele - p[i - 1].ele; if (de > 0) dPlus += de; else if (de < 0) dMinus += -de\<close>.
\<close>

fun elevationTotalsLoop :: "point list \<Rightarrow> jsnum \<times> jsnum \<Rightarrow> jsnum \<times> jsnum" where
  "elevationTotalsLoop (a # b # rest) (dPlus, dMinus) =
     (let de = ele b - ele a
      in elevationTotalsLoop (b # rest)
           (if de > Num 0 then (dPlus + de, dMinus)
            else if de < Num 0 then (dPlus, dMinus + (- de))
            else (dPlus, dMinus)))"
| "elevationTotalsLoop rest (dPlus, dMinus) = (dPlus, dMinus)"

subsection \<open>Smoothing\<close>

text \<open>
  \<open>smoothElevation(elevations, windowSize)\<close> with a natural window size; \<open>null\<close> is
  \<open>None\<close>.
\<close>

definition smoothElevation :: "jsnum list \<Rightarrow> nat \<Rightarrow> jsnum option list" where
  "smoothElevation elevations windowSize =
     (if windowSize = 1 then map Some elevations
      else
        (let half = windowSize div 2
         in map (\<lambda>i.
                  let window = filter (\<lambda>j. j < length elevations \<and> isFinite (elevations ! j))
                                 [i - half ..< i + half + 1];
                      sum = foldl (\<lambda>s j. s + elevations ! j) (Num 0) window;
                      count = length window
                  in if count > 0 then Some (sum / Num (real count)) else None)
              [0 ..< length elevations]))"

text \<open>A \<open>null\<close> elevation is used in arithmetic only, where it counts as 0.\<close>

definition toNumber :: "jsnum option \<Rightarrow> jsnum" where
  "toNumber v = (case v of Some x \<Rightarrow> x | None \<Rightarrow> Num 0)"

subsection \<open>Distances\<close>

definition toRadians :: "jsnum \<Rightarrow> jsnum" where
  "toRadians degrees = (degrees * Num pi) / Num 180"

definition haversineDistance :: "'a point_scheme \<Rightarrow> 'b point_scheme \<Rightarrow> jsnum" where
  "haversineDistance a b =
     (let R = Num 6371000;
          dLat = toRadians (lat b - lat a);
          dLon = toRadians (lon b - lon a);
          lat1 = toRadians (lat a);
          lat2 = toRadians (lat b);
          sinDLat = js_sin (dLat / Num 2);
          sinDLon = js_sin (dLon / Num 2);
          h = sinDLat * sinDLat + js_cos lat1 * js_cos lat2 * sinDLon * sinDLon;
          c = Num 2 * js_atan2 (js_sqrt h) (js_sqrt (Num 1 - h))
      in R * c)"

text \<open>
  \<open>cumulativeDistances = [0]\<close>, then for every further point the previous entry plus the
  distance from the previous point.
\<close>

fun cumulativeLoop :: "point list \<Rightarrow> jsnum \<Rightarrow> jsnum list" where
  "cumulativeLoop (a # b # rest) previous =
     (let d = previous + haversineDistance a b in d # cumulativeLoop (b # rest) d)"
| "cumulativeLoop rest previous = []"

definition cumulativeDistancesOf :: "point list \<Rightarrow> jsnum list" where
  "cumulativeDistancesOf points = Num 0 # cumulativeLoop points (Num 0)"

subsection \<open>Per-segment detail\<close>

record detailedSegment = segment +
  speedKmh :: jsnum
  timeSec :: jsnum

definition detailSegment :: "jsnum \<Rightarrow> string \<Rightarrow> jsnum \<Rightarrow> segment \<Rightarrow> detailedSegment" where
  "detailSegment vFlatKmh profile prudence seg =
     (let speed = calculateSpeedForSlope (slopePct seg) vFlatKmh profile prudence;
          distKm = lengthM seg / Num 1000;
          unrounded = (distKm / speed) * Num 3600
      in \<lparr>index = index seg, fromM = fromM seg, toM = toM seg, lengthM = lengthM seg,
          deltaElevM = deltaElevM seg, slopePct = slopePct seg,
          speedKmh = speed, timeSec = js_round unrounded\<rparr>)"

subsection \<open>Grouping by kilometre\<close>

text \<open>
  The object \<open>perKm\<close> is a list of keys with their entries, in the order the keys were
  added. The fields of the entries carry the prefix \<open>b_\<close>, those of the reported
  per-kilometre rows the prefix \<open>pk_\<close>, those of the stages \<open>st_\<close>.
\<close>

record kmBucket =
  b_km :: jsnum
  b_segments :: "detailedSegment list"
  b_totalLengthM :: jsnum
  b_totalTimeSec :: jsnum
  b_dPlusM :: jsnum
  b_dMinusM :: jsnum

definition kmIndexOf :: "detailedSegment \<Rightarrow> jsnum" where
  "kmIndexOf seg = js_floor ((fromM seg + toM seg) / Num 2 / Num 1000)"

definition addToBucket :: "detailedSegment \<Rightarrow> kmBucket \<Rightarrow> kmBucket" where
  "addToBucket seg b =
     b\<lparr>b_segments := b_segments b @ [seg],
       b_totalLengthM := b_totalLengthM b + lengthM seg,
       b_totalTimeSec := b_totalTimeSec b + timeSec seg,
       b_dPlusM := (if deltaElevM seg > Num 0 then b_dPlusM b + deltaElevM seg else b_dPlusM b),
       b_dMinusM := (if deltaElevM seg > Num 0 then b_dMinusM b
                     else b_dMinusM b + (- deltaElevM seg))\<rparr>"

fun perKmLoop :: "detailedSegment list \<Rightarrow> (jsnum \<times> kmBucket) list \<Rightarrow> (jsnum \<times> kmBucket) list" where
  "perKmLoop [] perKm = perKm"
| "perKmLoop (seg # segs) perKm =
     (let kmIndex = kmIndexOf seg;
          perKm1 = (if map_of perKm kmIndex = None
                    then perKm @ [(kmIndex, \<lparr>b_km = kmIndex + Num 1, b_segments = [],
                                             b_totalLengthM = Num 0, b_totalTimeSec = Num 0,
                                             b_dPlusM = Num 0, b_dMinusM = Num 0\<rparr>)]
                    else perKm);
          perKm2 = map (\<lambda>(k, b). if k = kmIndex then (k, addToBucket seg b) else (k, b)) perKm1
      in perKmLoop segs perKm2)"

text \<open>
  \<open>Object.values\<close>: the entries under array-index keys (the integers from 0 below
  \<open>2^32 - 1\<close>) in ascending order of the key, then the others in the order they were added.
\<close>

definition isArrayIndex :: "jsnum \<Rightarrow> bool" where
  "isArrayIndex k =
     (case k of Num r \<Rightarrow> 0 \<le> r \<and> r < 4294967295 \<and> r = of_int \<lfloor>r\<rfloor> | _ \<Rightarrow> False)"

definition keyValue :: "jsnum \<Rightarrow> real" where
  "keyValue k = (case k of Num r \<Rightarrow> r | _ \<Rightarrow> 0)"

definition objectValues :: "(jsnum \<times> 'a) list \<Rightarrow> 'a list" where
  "objectValues obj =
     map snd (sort_key (\<lambda>(k, v). keyValue k) (filter (\<lambda>(k, v). isArrayIndex k) obj))
     @ map snd (filter (\<lambda>(k, v). \<not> isArrayIndex k) obj)"

record perKmEntry =
  pk_km :: jsnum
  pk_distanceKm :: jsnum
  pk_timeSec :: jsnum
  pk_avgSpeedKmh :: jsnum
  pk_avgSlopePct :: jsnum
  pk_dPlusM :: jsnum
  pk_dMinusM :: jsnum

definition perKmEntryOf :: "kmBucket \<Rightarrow> perKmEntry" where
  "perKmEntryOf km =
     (let distKm = b_totalLengthM km / Num 1000;
          avgSpeed = (if distKm > Num 0 then distKm / (b_totalTimeSec km / Num 3600) else Num 0);
          avgSlope = (if distKm > Num 0
                      then foldl (\<lambda>sum seg. sum + slopePct seg * (lengthM seg / Num 1000))
                             (Num 0) (b_segments km) / distKm
                      else Num 0)
      in \<lparr>pk_km = b_km km, pk_distanceKm = distKm, pk_timeSec = js_round (b_totalTimeSec km),
          pk_avgSpeedKmh = avgSpeed, pk_avgSlopePct = avgSlope,
          pk_dPlusM = js_round (b_dPlusM km), pk_dMinusM = js_round (b_dMinusM km)\<rparr>)"

definition perKmArrayOf :: "detailedSegment list \<Rightarrow> perKmEntry list" where
  "perKmArrayOf detailedSegments = map perKmEntryOf (objectValues (perKmLoop detailedSegments []))"

subsection \<open>Stages\<close>

fun uniqueLoop :: "jsnum list \<Rightarrow> jsnum list \<Rightarrow> jsnum list" where
  "uniqueLoop [] uniqueBoundaries = uniqueBoundaries"
| "uniqueLoop (b # bs) uniqueBoundaries =
     uniqueLoop bs
       (if uniqueBoundaries = [] \<or> \<bar>last uniqueBoundaries - b\<bar> > Num 0.001
        then uniqueBoundaries @ [b] else uniqueBoundaries)"

record step =
  st_index :: nat
  st_fromKm :: jsnum
  st_toKm :: jsnum
  st_distanceKm :: jsnum
  st_dPlusM :: jsnum
  st_dMinusM :: jsnum
  st_movingSec :: jsnum
  st_stopSec :: jsnum
  st_totalSec :: jsnum
  st_avgSpeedKmh :: jsnum

definition inStep :: "jsnum \<Rightarrow> jsnum \<Rightarrow> detailedSegment \<Rightarrow> bool" where
  "inStep fromKm toKm s =
     (let mid = (fromM s + toM s) / Num 2
      in mid \<ge> fromKm * Num 1000 \<and> mid < toKm * Num 1000)"

definition stepOf ::
  "point list \<Rightarrow> jsnum list \<Rightarrow> detailedSegment list \<Rightarrow> (jsnum \<times> jsnum) list \<Rightarrow>
   nat \<Rightarrow> jsnum \<Rightarrow> jsnum \<Rightarrow> step" where
  "stepOf rawPoints cumulativeDistancesRaw detailedSegments checkpoints i fromKm toKm =
     (let stepPoints = map snd (filter (\<lambda>(d, p). d / Num 1000 \<ge> fromKm \<and> d / Num 1000 \<le> toKm)
                                  (zip cumulativeDistancesRaw rawPoints));
          (stepDPlus, stepDMinus) = elevationTotalsLoop stepPoints (Num 0, Num 0);
          stepSegments = filter (inStep fromKm toKm) detailedSegments;
          stepLengthM = foldl (\<lambda>sum s. sum + lengthM s) (Num 0) stepSegments;
          stepMovingSec = foldl (\<lambda>sum s. sum + timeSec s) (Num 0) stepSegments;
          stopSec = (case find (\<lambda>cp. \<bar>fst cp - toKm\<bar> < Num 0.1) checkpoints of
                       Some checkpoint \<Rightarrow> orZero (snd checkpoint) * Num 60
                     | None \<Rightarrow> Num 0);
          stepDistKm = stepLengthM / Num 1000;
          stepAvgSpeed = (if stepDistKm > Num 0 then stepDistKm / (stepMovingSec / Num 3600)
                          else Num 0)
      in \<lparr>st_index = i + 1, st_fromKm = fromKm, st_toKm = toKm, st_distanceKm = stepDistKm,
          st_dPlusM = js_round stepDPlus, st_dMinusM = js_round stepDMinus,
          st_movingSec = js_round stepMovingSec, st_stopSec = stopSec,
          st_totalSec = js_round (stepMovingSec + stopSec), st_avgSpeedKmh = stepAvgSpeed\<rparr>)"

fun stepsLoop ::
  "point list \<Rightarrow> jsnum list \<Rightarrow> detailedSegment list \<Rightarrow> (jsnum \<times> jsnum) list \<Rightarrow>
   nat \<Rightarrow> jsnum list \<Rightarrow> step list" where
  "stepsLoop rawPoints cumulativeDistancesRaw detailedSegments checkpoints i (fromKm # toKm # rest) =
     stepOf rawPoints cumulativeDistancesRaw detailedSegments checkpoints i fromKm toKm
     # stepsLoop rawPoints cumulativeDistancesRaw detailedSegments checkpoints (i + 1) (toKm # rest)"
| "stepsLoop rawPoints cumulativeDistancesRaw detailedSegments checkpoints i rest = []"

subsection \<open>The result\<close>

record totals =
  totalDistanceKm :: jsnum
  dPlusM :: jsnum
  dMinusM :: jsnum
  dPlusMAllPoints :: jsnum
  dMinusMAllPoints :: jsnum
  effortDistanceKm :: jsnum

record pacingResult =
  totalsOf :: totals
  vFlatKmhOf :: jsnum
  steps :: "step list"
  perKm :: "perKmEntry list"
  per250m :: "detailedSegment list"

text \<open>Steps 3 and 4: the points with their elevation filled and smoothed.\<close>

definition conditionedPoints :: "point list \<Rightarrow> nat \<Rightarrow> point list" where
  "conditionedPoints rawPoints smoothingWindow =
     (let eleRaw = map ele rawPoints;
          eleFilled = fillMissingElevation eleRaw;
          eleSmoothed = smoothElevation eleFilled smoothingWindow
      in map (\<lambda>(p, e). p\<lparr>ele := toNumber e\<rparr>) (zip rawPoints eleSmoothed))"

text \<open>Step 8: the total planned stop time, checkpoint stops plus rest periods.\<close>

definition totalStopSecOf :: "(jsnum \<times> jsnum) list \<Rightarrow> jsnum \<times> jsnum \<Rightarrow> jsnum" where
  "totalStopSecOf checkpoints restPeriods =
     (let checkpointStopSec = foldl (\<lambda>sum cp. sum + orZero (snd cp) * Num 60) (Num 0) checkpoints;
          restStopSec = orZero (fst restPeriods) * orZero (snd restPeriods) * Num 60
      in checkpointStopSec + restStopSec)"

text \<open>
  Steps 10 to 17: calibration, per-segment detail, grouping and totals. The formatted
  strings of the result (times, paces) and the echo of the input are left out;
  \<open>calibration.vFlatKmh\<close> is \<open>vFlatKmhOf\<close> and \<open>totals\<close> is \<open>totalsOf\<close>.
\<close>

definition pacingResultOf ::
  "point list \<Rightarrow> jsnum \<Rightarrow> jsnum \<Rightarrow> jsnum \<Rightarrow> segment list \<Rightarrow> jsnum \<Rightarrow> string \<Rightarrow> jsnum \<Rightarrow>
   (jsnum \<times> jsnum) list \<Rightarrow> pacingResult" where
  "pacingResultOf rawPoints dPlusTotal dMinusTotal totalKm segments targetMovingSec
     profile prudence checkpoints =
     (let vFlatKmh = findVflatForTargetTime segments targetMovingSec profile prudence
                       (Num 3) (Num 25) 40;
          detailedSegments = map (detailSegment vFlatKmh profile prudence) segments;
          perKmArray = perKmArrayOf detailedSegments;
          cumulativeDistancesRaw = cumulativeDistancesOf rawPoints;
          boundariesKm = sortNumeric ([Num 0] @ map fst checkpoints @ [totalKm]);
          uniqueBoundaries = uniqueLoop boundariesKm [];
          stepList = stepsLoop rawPoints cumulativeDistancesRaw detailedSegments checkpoints
                       0 uniqueBoundaries;
          dPlusTotalFromSteps = foldl (\<lambda>sum s. sum + st_dPlusM s) (Num 0) stepList;
          dMinusTotalFromSteps = foldl (\<lambda>sum s. sum + st_dMinusM s) (Num 0) stepList
      in \<lparr>totalsOf = \<lparr>totalDistanceKm = totalKm,
                       dPlusM = js_round dPlusTotalFromSteps,
                       dMinusM = js_round dMinusTotalFromSteps,
                       dPlusMAllPoints = js_round dPlusTotal,
                       dMinusMAllPoints = js_round dMinusTotal,
                       effortDistanceKm = totalKm + dPlusTotalFromSteps / Num 100\<rparr>,
          vFlatKmhOf = vFlatKmh,
          steps = stepList,
          perKm = perKmArray,
          per250m = detailedSegments\<rparr>)"

text \<open>
  \<open>calculatePacing(xmlContent, targetTime, profile, prudence, checkpoints, restPeriods,
  segmentLengthM, smoothingWindow)\<close>, in the source's order. An exception leaves the
  function with \<open>Inl\<close>; \<open>None\<close> is the resampling loop not ending.
\<close>

definition calculatePacing ::
  "(jsnum \<times> jsnum \<times> jsnum option) list \<Rightarrow> string \<Rightarrow> string \<Rightarrow> jsnum \<Rightarrow> (jsnum \<times> jsnum) list \<Rightarrow>
   jsnum \<times> jsnum \<Rightarrow> jsnum \<Rightarrow> nat \<Rightarrow> (error + pacingResult) option" where
  "calculatePacing xmlContent targetTime profile prudence checkpoints restPeriods
     segmentLengthM smoothingWindow =
     (case parseGpxFile xmlContent of
        Inl e \<Rightarrow> Some (Inl e)
      | Inr rawPoints \<Rightarrow>
     (let (dPlusTotal, dMinusTotal) = elevationTotalsLoop rawPoints (Num 0, Num 0);
          points = conditionedPoints rawPoints smoothingWindow;
          cumulativeDistances = cumulativeDistancesOf points;
          totalDistanceM = last cumulativeDistances;
          totalDistanceKm = totalDistanceM / Num 1000
      in case resamplePoints points cumulativeDistances segmentLengthM of
           None \<Rightarrow> None
         | Some (Inl e) \<Rightarrow> Some (Inl e)
         | Some (Inr resampledPoints) \<Rightarrow>
     (let segments = makeSegments 1 resampledPoints;
          totalStopSec = totalStopSecOf checkpoints restPeriods
      in case parseTimeToSeconds targetTime of
           Inl e \<Rightarrow> Some (Inl e)
         | Inr targetTotalSec \<Rightarrow>
     (let targetMovingSec = targetTotalSec - totalStopSec
      in if targetMovingSec \<le> Num 0 then Some (Inl StopTimeError)
         else Some (Inr (pacingResultOf rawPoints dPlusTotal dMinusTotal totalDistanceKm
                           segments targetMovingSec profile prudence checkpoints))))))"

subsection \<open>Elevation gain and loss, as the specification words them\<close>

text \<open>
  The consecutive elevation spec_deltas of a sequence; gain is the sum of the positive ones,
  loss the sum of the absolute values of the negative ones.
\<close>

definition spec_deltas :: "real list \<Rightarrow> real list" where
  "spec_deltas es = map (\<lambda>(a, b). b - a) (zip es (tl es))"

definition spec_elevation_gain :: "real list \<Rightarrow> real" where
  "spec_elevation_gain es = sum_list (filter (\<lambda>d. 0 < d) (spec_deltas es))"

definition spec_elevation_loss :: "real list \<Rightarrow> real" where
  "spec_elevation_loss es = sum_list (map abs (filter (\<lambda>d. d < 0) (spec_deltas es)))"

section \<open>Auxiliary predicates for the proofs\<close>

definition finiteOrNaN :: "jsnum \<Rightarrow> bool" where
  "finiteOrNaN x = (x = NaN \<or> isFinite x)"

definition isRounded :: "jsnum \<Rightarrow> bool" where
  "isRounded x = (js_round x = x)"


declare bisectLoop.simps [simp del]

section \<open>Verified properties\<close>

subsection \<open>Slope-speed model\<close>

lemma calculateSpeedForSlope_Num:
  "calculateSpeedForSlope (Num slope) (Num v) profile (Num caution)
   = Num (spec_speed_table slope v profile caution)"
  unfolding calculateSpeedForSlope_def spec_speed_table_def pickSpeedFromRange_def spec_range_pick_def
    spec_by_profile_def minus_jsnum_def Let_def
  by (simp add: field_simps)

text \<open>
  Claim C1. For every finite slope, flat speed and caution, and every profile, the
  slope-speed function (in the browser and in the command-line variant) returns the finite
  number that the specification's piecewise table
  gives, with the table's boundary inclusivity: \<open>[-1, 1]\<close> flat, \<open>(1, 12]\<close> the uphill
  formula, \<open>(12, 15]\<close>, \<open>(15, 20]\<close> and \<open>(20, \<infinity>)\<close> the profile's range-pick,
  \<open>[-3, -1)\<close>, \<open>[-4, -3)\<close> and \<open>[-6, -4)\<close> the downhill formula (divided further by
  1.05 and 1.10 on the last two), \<open>[-8, -6)\<close>, \<open>[-12, -8)\<close> and \<open>(-\<infinity>, -12)\<close> the
  downhill range-pick.
\<close>

theorem calculateSpeedForSlope_is_speed_table:
  "calculateSpeedForSlope (Num slopePercent) (Num flatSpeedKmh) profile (Num caution)
     = Num (spec_speed_table slopePercent flatSpeedKmh profile caution)
   \<and> speedForSlopeKmh (Num slopePercent) (Num flatSpeedKmh) profile (Num caution)
     = Num (spec_speed_table slopePercent flatSpeedKmh profile caution)"
proof
  show "calculateSpeedForSlope (Num slopePercent) (Num flatSpeedKmh) profile (Num caution)
     = Num (spec_speed_table slopePercent flatSpeedKmh profile caution)"
    by (rule calculateSpeedForSlope_Num)
  show "speedForSlopeKmh (Num slopePercent) (Num flatSpeedKmh) profile (Num caution)
     = Num (spec_speed_table slopePercent flatSpeedKmh profile caution)"
    unfolding speedForSlopeKmh_def spec_speed_table_def pickSpeedFromRange_def
      spec_range_pick_def spec_by_profile_def minus_jsnum_def Let_def
    by (simp add: field_simps)
qed

lemma spec_range_pick_pos:
  assumes "0 \<le> c" "c \<le> 1" "0 < lo" "lo \<le> hi"
  shows "0 < spec_range_pick c lo hi"
proof -
  have "c * (hi - lo) \<le> 1 * (hi - lo)"
    using assms by (intro mult_right_mono) simp_all
  then show ?thesis using assms by (simp add: spec_range_pick_def)
qed

lemma spec_speed_table_pos:
  assumes "0 < v" "0 \<le> c" "c \<le> 1"
  shows "0 < spec_speed_table s v p c"
  using assms
  unfolding spec_speed_table_def spec_by_profile_def
  by (auto intro!: spec_range_pick_pos divide_pos_pos)

lemma spec_speed_table_mono:
  assumes "v1 \<le> v2"
  shows "spec_speed_table s v1 p c \<le> spec_speed_table s v2 p c"
  using assms
  unfolding spec_speed_table_def spec_by_profile_def
  by (auto intro!: divide_right_mono)

subsection \<open>Total moving time\<close>

lemma good_speed_Num:
  assumes "\<not> (\<not> isFinite sp \<or> sp \<le> Num 0)"
  shows "\<exists>r. sp = Num r \<and> 0 < r"
  using assms by (cases sp) auto

lemma movingTimeLoop_bad:
  assumes "\<exists>seg \<in> set segs. \<not> isFinite (calculateSpeedForSlope (slopePct seg) v p c)
               \<or> calculateSpeedForSlope (slopePct seg) v p c \<le> Num 0"
  shows "movingTimeLoop segs v p c acc = PInf"
  using assms
proof (induction segs arbitrary: acc)
  case Nil
  then show ?case by simp
next
  case (Cons seg segs)
  show ?case
  proof (cases "\<not> isFinite (calculateSpeedForSlope (slopePct seg) v p c)
               \<or> calculateSpeedForSlope (slopePct seg) v p c \<le> Num 0")
    case True
    then show ?thesis by (simp add: Let_def)
  next
    case False
    with Cons.prems have "\<exists>seg \<in> set segs. \<not> isFinite (calculateSpeedForSlope (slopePct seg) v p c)
               \<or> calculateSpeedForSlope (slopePct seg) v p c \<le> Num 0" by auto
    from Cons.IH[OF this] False show ?thesis by (simp add: Let_def)
  qed
qed

lemma movingTimeLoop_foldl:
  assumes "\<forall>seg \<in> set segs. \<not> (\<not> isFinite (calculateSpeedForSlope (slopePct seg) v p c)
               \<or> calculateSpeedForSlope (slopePct seg) v p c \<le> Num 0)"
  shows "movingTimeLoop segs v p c acc =
         foldl (\<lambda>t seg. t + (lengthM seg / Num 1000
                  / calculateSpeedForSlope (slopePct seg) v p c) * Num 3600) acc segs"
  using assms by (induction segs arbitrary: acc) (simp_all add: Let_def)

lemma movingTimeLoop_good:
  assumes "\<forall>seg \<in> set segs. isFinite (lengthM seg)"
    and "\<forall>seg \<in> set segs. \<not> (\<not> isFinite (calculateSpeedForSlope (slopePct seg) v p c)
               \<or> calculateSpeedForSlope (slopePct seg) v p c \<le> Num 0)"
  shows "\<exists>t. movingTimeLoop segs v p c (Num acc) = Num t"
  using assms
proof (induction segs arbitrary: acc)
  case Nil
  then show ?case by simp
next
  case (Cons seg segs)
  from Cons.prems(1) obtain l where l: "lengthM seg = Num l" by (cases "lengthM seg") auto
  from Cons.prems(2) good_speed_Num[of "calculateSpeedForSlope (slopePct seg) v p c"]
  obtain r where r: "calculateSpeedForSlope (slopePct seg) v p c = Num r" "0 < r" by auto
  have "movingTimeLoop (seg # segs) v p c (Num acc)
        = movingTimeLoop segs v p c (Num (acc + l / 1000 / r * 3600))"
    using l r by (simp add: Let_def)
  moreover have "\<exists>t. movingTimeLoop segs v p c (Num (acc + l / 1000 / r * 3600)) = Num t"
    using Cons.prems by (intro Cons.IH) simp_all
  ultimately show ?case by simp
qed

lemma movingTimeLoop_mono:
  assumes "\<forall>seg \<in> set segs. isFinite (slopePct seg) \<and> (\<exists>l. lengthM seg = Num l \<and> 0 \<le> l)"
    and "0 < v1" "v1 \<le> v2" "0 \<le> c" "c \<le> 1" "a2 \<le> a1"
  shows "\<exists>t1 t2. movingTimeLoop segs (Num v1) p (Num c) (Num a1) = Num t1
               \<and> movingTimeLoop segs (Num v2) p (Num c) (Num a2) = Num t2 \<and> t2 \<le> t1"
  using assms
proof (induction segs arbitrary: a1 a2)
  case Nil
  then show ?case by simp
next
  case (Cons seg segs)
  from Cons.prems(1) obtain s l where sl: "slopePct seg = Num s" "lengthM seg = Num l" "0 \<le> l"
    by (cases "slopePct seg") auto
  let ?r1 = "spec_speed_table s v1 p c" and ?r2 = "spec_speed_table s v2 p c"
  have r1: "0 < ?r1" using Cons.prems by (intro spec_speed_table_pos) simp_all
  have r12: "?r1 \<le> ?r2" using Cons.prems by (intro spec_speed_table_mono) simp
  have r2: "0 < ?r2" using r1 r12 by simp
  have e1: "movingTimeLoop (seg # segs) (Num v1) p (Num c) (Num a1)
        = movingTimeLoop segs (Num v1) p (Num c) (Num (a1 + l / 1000 / ?r1 * 3600))"
    using sl r1 by (simp add: Let_def calculateSpeedForSlope_Num)
  have e2: "movingTimeLoop (seg # segs) (Num v2) p (Num c) (Num a2)
        = movingTimeLoop segs (Num v2) p (Num c) (Num (a2 + l / 1000 / ?r2 * 3600))"
    using sl r2 by (simp add: Let_def calculateSpeedForSlope_Num)
  have "l / 1000 / ?r2 \<le> l / 1000 / ?r1"
    using sl(3) r1 r12 by (intro divide_left_mono) simp_all
  then have le: "a2 + l / 1000 / ?r2 * 3600 \<le> a1 + l / 1000 / ?r1 * 3600"
    using Cons.prems(6) by simp
  have "\<forall>seg \<in> set segs. isFinite (slopePct seg) \<and> (\<exists>l. lengthM seg = Num l \<and> 0 \<le> l)"
    using Cons.prems(1) by simp
  from Cons.IH[OF this Cons.prems(2-5) le] show ?case
    unfolding e1 e2 .
qed

text \<open>
  Claim C3. For a fixed list of segments with finite slopes (and the finite, non-negative
  lengths that segments have by construction), a fixed profile and a fixed caution in
  \<open>[0, 1]\<close>, and flat speeds \<open>v1 < v2\<close> within positive calibration bounds
  \<open>[vMin, vMax]\<close>: both total moving times are finite numbers and the one for \<open>v2\<close> is
  at most the one for \<open>v1\<close>.
\<close>

theorem movingTime_monotone_in_flat_speed:
  assumes "\<forall>seg \<in> set segments. isFinite (slopePct seg) \<and> (\<exists>l. lengthM seg = Num l \<and> 0 \<le> l)"
    and "0 \<le> caution" "caution \<le> 1"
    and "0 < vMin" "vMin \<le> v1" "v1 < v2" "v2 \<le> vMax"
  shows "\<exists>t1 t2. calculateMovingTimeForVflat segments (Num v1) profile (Num caution) = Num t1
               \<and> calculateMovingTimeForVflat segments (Num v2) profile (Num caution) = Num t2
               \<and> t2 \<le> t1"
proof -
  have "0 < v1" "v1 \<le> v2" using assms by simp_all
  from movingTimeLoop_mono[OF assms(1) this assms(2,3), of 0 0 profile]
  show ?thesis by (simp add: calculateMovingTimeForVflat_def)
qed

theorem movingTime_monotone_in_flat_speed_witness:
  "(0::real) \<le> 1/2 \<and> (1/2::real) \<le> 1 \<and> (0::real) < 3 \<and> (3::real) \<le> 5 \<and> (5::real) < 10
   \<and> (10::real) \<le> 25
   \<and> (\<exists>t1 t2.
        calculateMovingTimeForVflat
          [\<lparr>index = 0, fromM = Num 0, toM = Num 250, lengthM = Num 250,
            deltaElevM = Num 10, slopePct = Num 4\<rparr>,
           \<lparr>index = 1, fromM = Num 250, toM = Num 400, lengthM = Num 150,
            deltaElevM = Num (-30), slopePct = Num (-20)\<rparr>]
          (Num 5) ''trained'' (Num (1/2)) = Num t1
      \<and> calculateMovingTimeForVflat
          [\<lparr>index = 0, fromM = Num 0, toM = Num 250, lengthM = Num 250,
            deltaElevM = Num 10, slopePct = Num 4\<rparr>,
           \<lparr>index = 1, fromM = Num 250, toM = Num 400, lengthM = Num 150,
            deltaElevM = Num (-30), slopePct = Num (-20)\<rparr>]
          (Num 10) ''trained'' (Num (1/2)) = Num t2
      \<and> t2 \<le> t1)"
  using movingTime_monotone_in_flat_speed
    [of "[\<lparr>index = 0, fromM = Num 0, toM = Num 250, lengthM = Num 250,
            deltaElevM = Num 10, slopePct = Num 4\<rparr>,
          \<lparr>index = 1, fromM = Num 250, toM = Num 400, lengthM = Num 150,
            deltaElevM = Num (-30), slopePct = Num (-20)\<rparr>]" "1/2" 3 5 10 25 "''trained''"]
  by simp

text \<open>
  Claim C8. The total moving time is the sum over the segments, in order, of
  \<open>(lengthKm / speed) * 3600\<close>, unless some segment's resolved speed is non-finite or
  \<open>\<le> 0\<close>, in which case it is \<open>+\<infinity>\<close>; for segments of finite length it is \<open>+\<infinity>\<close>
  exactly in that case. With a flat speed \<open>> 0\<close>, a caution in \<open>[0, 1]\<close> and a finite
  slope the resolved speed is a finite, strictly positive number, so for segments with
  finite slopes and lengths the \<open>+\<infinity>\<close> branch is not taken and the total is finite.
\<close>

theorem movingTime_infinite_iff_bad_speed:
  "calculateMovingTimeForVflat segments vFlatKmh profile prudence =
           (if \<exists>seg \<in> set segments.
                 \<not> isFinite (calculateSpeedForSlope (slopePct seg) vFlatKmh profile prudence)
                 \<or> calculateSpeedForSlope (slopePct seg) vFlatKmh profile prudence \<le> Num 0
            then PInf
            else foldl (\<lambda>t seg. t + (lengthM seg / Num 1000
                    / calculateSpeedForSlope (slopePct seg) vFlatKmh profile prudence) * Num 3600)
                   (Num 0) segments)
       \<and> ((\<forall>seg \<in> set segments. isFinite (lengthM seg)) \<longrightarrow>
            (calculateMovingTimeForVflat segments vFlatKmh profile prudence = PInf
             \<longleftrightarrow> (\<exists>seg \<in> set segments.
                 \<not> isFinite (calculateSpeedForSlope (slopePct seg) vFlatKmh profile prudence)
                 \<or> calculateSpeedForSlope (slopePct seg) vFlatKmh profile prudence \<le> Num 0)))
       \<and> (\<forall>v c slope. 0 < v \<and> 0 \<le> c \<and> c \<le> 1 \<longrightarrow>
             (\<exists>speed. calculateSpeedForSlope (Num slope) (Num v) profile (Num c) = Num speed
                       \<and> 0 < speed))
       \<and> (\<forall>v c. vFlatKmh = Num v \<and> prudence = Num c \<and> 0 < v \<and> 0 \<le> c \<and> c \<le> 1
             \<and> (\<forall>seg \<in> set segments. isFinite (slopePct seg) \<and> isFinite (lengthM seg)) \<longrightarrow>
             (\<exists>t. calculateMovingTimeForVflat segments vFlatKmh profile prudence = Num t))"
proof -
  let ?bad = "\<exists>seg \<in> set segments.
                 \<not> isFinite (calculateSpeedForSlope (slopePct seg) vFlatKmh profile prudence)
                 \<or> calculateSpeedForSlope (slopePct seg) vFlatKmh profile prudence \<le> Num 0"
  have good_fin: "\<exists>t. calculateMovingTimeForVflat segments vFlatKmh profile prudence = Num t"
    if "\<not> ?bad" and "\<forall>seg \<in> set segments. isFinite (lengthM seg)"
    unfolding calculateMovingTimeForVflat_def
    using that by (intro movingTimeLoop_good) blast+
  have bad_inf: "calculateMovingTimeForVflat segments vFlatKmh profile prudence = PInf" if "?bad"
    unfolding calculateMovingTimeForVflat_def using that by (rule movingTimeLoop_bad)
  have p1: "calculateMovingTimeForVflat segments vFlatKmh profile prudence =
           (if ?bad then PInf
            else foldl (\<lambda>t seg. t + (lengthM seg / Num 1000
                    / calculateSpeedForSlope (slopePct seg) vFlatKmh profile prudence) * Num 3600)
                   (Num 0) segments)"
  proof (cases ?bad)
    case True
    then show ?thesis using bad_inf by simp
  next
    case False
    then have "\<forall>seg \<in> set segments.
        \<not> (\<not> isFinite (calculateSpeedForSlope (slopePct seg) vFlatKmh profile prudence)
           \<or> calculateSpeedForSlope (slopePct seg) vFlatKmh profile prudence \<le> Num 0)"
      by blast
    from movingTimeLoop_foldl[OF this] False show ?thesis
      by (simp add: calculateMovingTimeForVflat_def)
  qed
  have p2: "calculateMovingTimeForVflat segments vFlatKmh profile prudence = PInf \<longleftrightarrow> ?bad"
    if "\<forall>seg \<in> set segments. isFinite (lengthM seg)"
    using good_fin[OF _ that] bad_inf by (cases ?bad) auto
  have p3: "\<forall>v c slope. 0 < v \<and> 0 \<le> c \<and> c \<le> 1 \<longrightarrow>
             (\<exists>speed. calculateSpeedForSlope (Num slope) (Num v) profile (Num c) = Num speed
                       \<and> 0 < speed)"
    by (simp add: calculateSpeedForSlope_Num spec_speed_table_pos)
  have p4: "\<exists>t. calculateMovingTimeForVflat segments vFlatKmh profile prudence = Num t"
    if h: "vFlatKmh = Num v \<and> prudence = Num c \<and> 0 < v \<and> 0 \<le> c \<and> c \<le> 1
             \<and> (\<forall>seg \<in> set segments. isFinite (slopePct seg) \<and> isFinite (lengthM seg))" for v c
  proof -
    have "\<not> ?bad"
    proof
      assume ?bad
      then obtain seg where seg: "seg \<in> set segments"
        "\<not> isFinite (calculateSpeedForSlope (slopePct seg) vFlatKmh profile prudence)
         \<or> calculateSpeedForSlope (slopePct seg) vFlatKmh profile prudence \<le> Num 0" by blast
      from h seg(1) obtain s where s: "slopePct seg = Num s" by (cases "slopePct seg") auto
      have "0 < spec_speed_table s v profile c" using h by (intro spec_speed_table_pos) simp_all
      with seg(2) s h show False by (simp add: calculateSpeedForSlope_Num)
    qed
    moreover have "\<forall>seg \<in> set segments. isFinite (lengthM seg)" using h by blast
    ultimately show ?thesis by (rule good_fin)
  qed
  from p1 p2 p3 p4 show ?thesis by blast
qed

theorem movingTime_infinite_iff_bad_speed_witness:
  "isFinite (lengthM \<lparr>index = 0, fromM = Num 0, toM = Num 250, lengthM = Num 250,
                    deltaElevM = Num (-10), slopePct = Num (-4)\<rparr>)
   \<and> calculateMovingTimeForVflat
        [\<lparr>index = 0, fromM = Num 0, toM = Num 250, lengthM = Num 250,
          deltaElevM = Num (-10), slopePct = Num (-4)\<rparr>] (Num 0) ''standard'' (Num (1/2)) = PInf
   \<and> (\<exists>t. calculateMovingTimeForVflat
        [\<lparr>index = 0, fromM = Num 0, toM = Num 250, lengthM = Num 250,
          deltaElevM = Num (-10), slopePct = Num (-4)\<rparr>] (Num 10) ''standard'' (Num (1/2)) = Num t)"
proof -
  let ?segs = "[\<lparr>index = 0, fromM = Num 0, toM = Num 250, lengthM = Num 250,
                deltaElevM = Num (-10), slopePct = Num (-4)\<rparr>]"
  have fin: "\<forall>seg \<in> set ?segs. isFinite (lengthM seg)" by simp
  have bad: "calculateSpeedForSlope (Num (-4)) (Num 0) ''standard'' (Num (1/2)) \<le> Num 0"
    by (simp add: calculateSpeedForSlope_Num spec_speed_table_def)
  have "calculateMovingTimeForVflat ?segs (Num 0) ''standard'' (Num (1/2)) = PInf"
    using movingTime_infinite_iff_bad_speed
      [of ?segs "Num 0" "''standard''" "Num (1/2)", THEN conjunct2, THEN conjunct1, THEN mp,
       OF fin] bad
    by simp
  moreover have "\<exists>t. calculateMovingTimeForVflat ?segs (Num 10) ''standard'' (Num (1/2)) = Num t"
    using movingTime_infinite_iff_bad_speed
      [of ?segs "Num 10" "''standard''" "Num (1/2)", THEN conjunct2, THEN conjunct2,
       THEN conjunct2, rule_format, of 10 "1/2"]
    by simp
  ultimately show ?thesis by simp
qed

subsection \<open>Flat-speed calibration\<close>

lemma spec_bisection_step_pair:
  "spec_bisection_step segs target p c (lo, hi) =
     (if calculateMovingTimeForVflat segs ((lo + hi) / Num 2) p c > target
      then ((lo + hi) / Num 2, hi) else (lo, (lo + hi) / Num 2))"
  by (simp add: spec_bisection_step_def Let_def)

lemma bisectLoop_funpow:
  "bisectLoop segs target p c i n b = ((spec_bisection_step segs target p c) ^^ (n - i)) b"
proof (induction segs target p c i n b rule: bisectLoop.induct)
  case (1 segs target p c i n lo hi)
  show ?case
  proof (cases "i < n")
    case False
    then show ?thesis by (simp add: bisectLoop.simps)
  next
    case True
    then have n: "n - i = Suc (n - (i + 1))" by simp
    let ?mid = "(lo + hi) / Num 2"
    let ?t = "calculateMovingTimeForVflat segs ?mid p c"
    show ?thesis
    proof (cases "?t > target")
      case gt: True
      have "bisectLoop segs target p c i n (lo, hi) = bisectLoop segs target p c (i + 1) n (?mid, hi)"
        using True gt by (subst bisectLoop.simps) (simp add: Let_def)
      also have "\<dots> = ((spec_bisection_step segs target p c) ^^ (n - (i + 1))) (?mid, hi)"
        using 1(1)[OF True refl refl gt] .
      also have "\<dots> = ((spec_bisection_step segs target p c) ^^ (n - i)) (lo, hi)"
        unfolding n funpow_Suc_right using gt by (simp add: spec_bisection_step_pair)
      finally show ?thesis .
    next
      case ngt: False
      have "bisectLoop segs target p c i n (lo, hi) = bisectLoop segs target p c (i + 1) n (lo, ?mid)"
        using True ngt by (subst bisectLoop.simps) (simp add: Let_def)
      also have "\<dots> = ((spec_bisection_step segs target p c) ^^ (n - (i + 1))) (lo, ?mid)"
        using 1(2)[OF True refl refl ngt] .
      also have "\<dots> = ((spec_bisection_step segs target p c) ^^ (n - i)) (lo, hi)"
        unfolding n funpow_Suc_right using ngt by (simp add: spec_bisection_step_pair)
      finally show ?thesis .
    qed
  qed
qed

text \<open>
  Claim C2. For every segment list, target, profile, caution, bounds and iteration count,
  \<open>findVflatForTargetTime\<close> returns the midpoint of the bracket obtained from
  \<open>(vMin, vMax)\<close> by exactly \<open>iterations\<close> bisection steps, each of which evaluates the
  total moving time at the midpoint and raises the lower bound if that time exceeds the
  target and lowers the upper bound otherwise. No step is skipped and none is added.
\<close>

theorem findVflatForTargetTime_fixed_iterations:
  "findVflatForTargetTime segments target profile caution vMin vMax iterations
   = spec_bracket_midpoint (((spec_bisection_step segments target profile caution) ^^ iterations) (vMin, vMax))"
  by (simp add: findVflatForTargetTime_def bisectLoop_funpow spec_bracket_midpoint_def split: prod.split)





subsection \<open>Elevation conditioning\<close>

lemma length_forwardFill [simp]: "length (forwardFill l xs) = length xs"
  by (induction xs arbitrary: l) (auto split: option.splits)

lemma forwardFill_keep:
  "i < length xs \<Longrightarrow> isFinite (xs ! i) \<Longrightarrow> forwardFill l xs ! i = xs ! i"
  by (induction xs arbitrary: l i) (auto simp: nth_Cons split: option.splits nat.splits)

lemma forwardFill_leading:
  "i < length xs \<Longrightarrow> \<forall>k \<le> i. \<not> isFinite (xs ! k) \<Longrightarrow>
   forwardFill l xs ! i = (case l of Some v \<Rightarrow> v | None \<Rightarrow> xs ! i)"
proof (induction xs arbitrary: i)
  case Nil
  then show ?case by simp
next
  case (Cons x xs)
  from Cons.prems(2) have x: "\<not> isFinite x" by auto
  show ?case
  proof (cases i)
    case 0
    then show ?thesis using x by (simp split: option.splits)
  next
    case (Suc i')
    have "\<forall>k \<le> i'. \<not> isFinite (xs ! k)"
      using Cons.prems(2) Suc by auto
    moreover have "i' < length xs" using Cons.prems(1) Suc by simp
    ultimately have "forwardFill l xs ! i' = (case l of Some v \<Rightarrow> v | None \<Rightarrow> xs ! i')"
      by (rule Cons.IH[rotated])
    then show ?thesis using x Suc by (simp split: option.splits)
  qed
qed

lemma forwardFill_from_preceding:
  "j < i \<Longrightarrow> i < length xs \<Longrightarrow> isFinite (xs ! j) \<Longrightarrow>
   \<forall>k. j < k \<and> k \<le> i \<longrightarrow> \<not> isFinite (xs ! k) \<Longrightarrow>
   forwardFill l xs ! i = xs ! j"
proof (induction xs arbitrary: l i j)
  case Nil
  then show ?case by simp
next
  case (Cons x xs)
  from Cons.prems(1) obtain i' where i: "i = Suc i'" by (cases i) auto
  show ?case
  proof (cases j)
    case 0
    then have x: "isFinite x" using Cons.prems(3) by simp
    have "\<forall>k \<le> i'. \<not> isFinite (xs ! k)"
      using Cons.prems(4) 0 i by auto
    moreover have "i' < length xs" using Cons.prems(2) i by simp
    ultimately have "forwardFill (Some x) xs ! i' = x"
      using forwardFill_leading[of i' xs "Some x"] by simp
    then show ?thesis using x 0 i by simp
  next
    case (Suc j')
    have "forwardFill l' xs ! i' = xs ! j'" for l'
    proof (rule Cons.IH)
      show "j' < i'" using Cons.prems(1) i Suc by simp
      show "i' < length xs" using Cons.prems(2) i by simp
      show "isFinite (xs ! j')" using Cons.prems(3) Suc by simp
      show "\<forall>k. j' < k \<and> k \<le> i' \<longrightarrow> \<not> isFinite (xs ! k)"
        using Cons.prems(4) i Suc by auto
    qed
    then show ?thesis using i Suc by (simp split: option.splits)
  qed
qed

lemma length_backwardFill [simp]: "length (fst (backwardFill xs)) = length xs"
  by (induction xs) (auto split: prod.splits option.splits)

lemma backwardFill_next:
  "snd (backwardFill xs) = Some n \<Longrightarrow> \<exists>j < length xs. isFinite (xs ! j) \<and> xs ! j = n
      \<and> (\<forall>k < j. \<not> isFinite (xs ! k))"
proof (induction xs)
  case Nil
  then show ?case by simp
next
  case (Cons x xs)
  show ?case
  proof (cases "isFinite x")
    case True
    with Cons.prems have "x = n" by (simp split: prod.splits)
    with True show ?thesis by (intro exI[of _ 0]) simp
  next
    case False
    with Cons.prems have "snd (backwardFill xs) = Some n"
      by (auto split: prod.splits option.splits)
    from Cons.IH[OF this] obtain j where j: "j < length xs" "isFinite (xs ! j)" "xs ! j = n"
      "\<forall>k < j. \<not> isFinite (xs ! k)" by blast
    show ?thesis
    proof (intro exI[of _ "Suc j"] conjI allI impI)
      fix k assume "k < Suc j"
      then show "\<not> isFinite ((x # xs) ! k)" using False j(4) by (cases k) auto
    qed (use j in simp_all)
  qed
qed

lemma backwardFill_next_None:
  "snd (backwardFill xs) = None \<Longrightarrow> \<forall>k < length xs. \<not> isFinite (xs ! k)"
proof (induction xs)
  case Nil
  then show ?case by simp
next
  case (Cons x xs)
  from Cons.prems have x: "\<not> isFinite x" and n: "snd (backwardFill xs) = None"
    by (auto split: prod.splits option.splits if_splits)
  from Cons.IH[OF n] x show ?case by (auto simp: nth_Cons split: nat.splits)
qed

lemma backwardFill_keep:
  "i < length xs \<Longrightarrow> isFinite (xs ! i) \<Longrightarrow> fst (backwardFill xs) ! i = xs ! i"
  by (induction xs arbitrary: i) (auto simp: nth_Cons split: option.splits nat.splits prod.splits)


lemma backwardFill_next_first:
  assumes "j < length xs" "isFinite (xs ! j)" "\<forall>k < j. \<not> isFinite (xs ! k)"
  shows "snd (backwardFill xs) = Some (xs ! j)"
proof (cases "snd (backwardFill xs)")
  case None
  from backwardFill_next_None[OF this] assms show ?thesis by blast
next
  case (Some n)
  from backwardFill_next[OF this] obtain j' where j': "j' < length xs" "isFinite (xs ! j')"
    "xs ! j' = n" "\<forall>k < j'. \<not> isFinite (xs ! k)" by blast
  have "j' = j"
  proof (rule ccontr)
    assume "j' \<noteq> j"
    then consider "j' < j" | "j < j'" by linarith
    then show False using assms j' by cases auto
  qed
  with Some j' show ?thesis by simp
qed

lemma backwardFill_all_missing:
  "\<forall>k < length xs. \<not> isFinite (xs ! k) \<Longrightarrow> backwardFill xs = (xs, None)"
proof (induction xs)
  case Nil
  then show ?case by simp
next
  case (Cons x xs)
  from Cons.prems have x: "\<not> isFinite x" by auto
  from Cons.prems have "\<forall>k < length xs. \<not> isFinite (xs ! k)" by auto
  from Cons.IH[OF this] x show ?case by simp
qed

lemma backwardFill_from_following:
  "i < j \<Longrightarrow> j < length xs \<Longrightarrow> isFinite (xs ! j) \<Longrightarrow>
   \<forall>k. i \<le> k \<and> k < j \<longrightarrow> \<not> isFinite (xs ! k) \<Longrightarrow>
   fst (backwardFill xs) ! i = xs ! j"
proof (induction xs arbitrary: i j)
  case Nil
  then show ?case by simp
next
  case (Cons x xs)
  from Cons.prems(1) obtain j' where j: "j = Suc j'" by (cases j) auto
  show ?case
  proof (cases i)
    case 0
    then have x: "\<not> isFinite x" using Cons.prems(4) Cons.prems(1) by auto
    have "snd (backwardFill xs) = Some (xs ! j')"
    proof (rule backwardFill_next_first)
      show "j' < length xs" using Cons.prems(2) j by simp
      show "isFinite (xs ! j')" using Cons.prems(3) j by simp
      show "\<forall>k < j'. \<not> isFinite (xs ! k)" using Cons.prems(4) 0 j by auto
    qed
    then show ?thesis using x 0 j by (cases "backwardFill xs") simp
  next
    case (Suc i')
    have "fst (backwardFill xs) ! i' = xs ! j'"
    proof (rule Cons.IH)
      show "i' < j'" using Cons.prems(1) Suc j by simp
      show "j' < length xs" using Cons.prems(2) j by simp
      show "isFinite (xs ! j')" using Cons.prems(3) j by simp
      show "\<forall>k. i' \<le> k \<and> k < j' \<longrightarrow> \<not> isFinite (xs ! k)"
        using Cons.prems(4) Suc j by auto
    qed
    then show ?thesis using Suc j by (cases "backwardFill xs") (auto split: option.splits)
  qed
qed

text \<open>
  Claim C9. For every sequence of elevations, \<open>fillMissingElevation\<close> returns a sequence
  of the same length whose entries are all finite: a finite entry is kept; a non-finite
  entry takes the nearest preceding finite value; a leading non-finite entry, with no finite
  value before it, takes the nearest following finite value; and when the sequence has no
  finite entry at all every entry becomes 0.
\<close>

theorem fillMissingElevation_finite_filled:
  "length (fillMissingElevation elevations) = length elevations
   \<and> (\<forall>i < length elevations. isFinite (fillMissingElevation elevations ! i))
   \<and> (\<forall>i < length elevations. isFinite (elevations ! i) \<longrightarrow>
        fillMissingElevation elevations ! i = elevations ! i)
   \<and> (\<forall>i j. j < i \<and> i < length elevations \<and> isFinite (elevations ! j)
        \<and> (\<forall>k. j < k \<and> k \<le> i \<longrightarrow> \<not> isFinite (elevations ! k)) \<longrightarrow>
        fillMissingElevation elevations ! i = elevations ! j)
   \<and> (\<forall>i j. i < j \<and> j < length elevations \<and> isFinite (elevations ! j)
        \<and> (\<forall>k < j. \<not> isFinite (elevations ! k)) \<longrightarrow>
        fillMissingElevation elevations ! i = elevations ! j)
   \<and> ((\<forall>k < length elevations. \<not> isFinite (elevations ! k)) \<longrightarrow>
        fillMissingElevation elevations = replicate (length elevations) (Num 0))"
proof -
  let ?f = "forwardFill None elevations"
  let ?b = "fst (backwardFill ?f)"
  have len: "length (fillMissingElevation elevations) = length elevations"
    by (simp add: fillMissingElevation_def)
  have nth: "fillMissingElevation elevations ! i = (if isFinite (?b ! i) then ?b ! i else Num 0)"
    if "i < length elevations" for i
    using that by (simp add: fillMissingElevation_def)
  have fin: "\<forall>i < length elevations. isFinite (fillMissingElevation elevations ! i)"
    by (simp add: nth)
  have keep: "fillMissingElevation elevations ! i = elevations ! i"
    if "i < length elevations" "isFinite (elevations ! i)" for i
  proof -
    have "?f ! i = elevations ! i" using that by (rule forwardFill_keep)
    moreover from this that have "?b ! i = ?f ! i" by (intro backwardFill_keep) simp_all
    ultimately show ?thesis using that by (simp add: nth)
  qed
  have prec: "fillMissingElevation elevations ! i = elevations ! j"
    if "j < i \<and> i < length elevations \<and> isFinite (elevations ! j)
        \<and> (\<forall>k. j < k \<and> k \<le> i \<longrightarrow> \<not> isFinite (elevations ! k))" for i j
  proof -
    have "?f ! i = elevations ! j" using that by (intro forwardFill_from_preceding) simp_all
    moreover from this that have "?b ! i = ?f ! i" by (intro backwardFill_keep) simp_all
    ultimately show ?thesis using that by (simp add: nth)
  qed
  have foll: "fillMissingElevation elevations ! i = elevations ! j"
    if h: "i < j \<and> j < length elevations \<and> isFinite (elevations ! j)
        \<and> (\<forall>k < j. \<not> isFinite (elevations ! k))" for i j
  proof -
    have fj: "?f ! j = elevations ! j" using h by (intro forwardFill_keep) simp_all
    have fk: "?f ! k = elevations ! k" if "k < j" for k
      using forwardFill_leading[of k elevations None] h that by simp
    have "?b ! i = ?f ! j"
    proof (rule backwardFill_from_following)
      show "i < j" using h by simp
      show "j < length ?f" using h by simp
      show "isFinite (?f ! j)" using fj h by simp
      show "\<forall>k. i \<le> k \<and> k < j \<longrightarrow> \<not> isFinite (?f ! k)" using fk h by simp
    qed
    then show ?thesis using fj h by (simp add: nth)
  qed
  have none: "fillMissingElevation elevations = replicate (length elevations) (Num 0)"
    if h: "\<forall>k < length elevations. \<not> isFinite (elevations ! k)"
  proof -
    have "?f ! k = elevations ! k" if "k < length elevations" for k
      using forwardFill_leading[of k elevations None] h that by simp
    then have f: "?f = elevations" by (intro nth_equalityI) simp_all
    have b: "?b = elevations" using backwardFill_all_missing[OF h] f by simp
    show ?thesis
      by (rule nth_equalityI) (use h b in \<open>simp_all add: fillMissingElevation_def\<close>)
  qed
  from len fin keep prec foll none show ?thesis by blast
qed


theorem fillMissingElevation_finite_filled_witness:
  "length (fillMissingElevation [NaN, Num 5, PInf, Num 7]) = 4
   \<and> fillMissingElevation [NaN, Num 5, PInf, Num 7] ! 2 = Num 5
   \<and> fillMissingElevation [NaN, Num 5, PInf, Num 7] ! 0 = Num 5
   \<and> fillMissingElevation [NaN, NInf] = [Num 0, Num 0]"
proof -
  let ?xs = "[NaN, Num 5, PInf, Num 7]"
  have k: "\<forall>k. 1 < k \<and> k \<le> 2 \<longrightarrow> \<not> isFinite (?xs ! k)"
  proof (intro allI impI)
    fix k :: nat assume "1 < k \<and> k \<le> 2"
    then have "k = 2" by simp
    then show "\<not> isFinite (?xs ! k)" by simp
  qed
  have a: "length (fillMissingElevation ?xs) = 4"
    using fillMissingElevation_finite_filled[of ?xs, THEN conjunct1] by simp
  have b: "fillMissingElevation ?xs ! 2 = Num 5"
    using fillMissingElevation_finite_filled[of ?xs, THEN conjunct2, THEN conjunct2, THEN conjunct2, THEN conjunct1,
        rule_format, of 1 2] k by simp
  have c: "fillMissingElevation ?xs ! 0 = Num 5"
    using fillMissingElevation_finite_filled[of ?xs, THEN conjunct2, THEN conjunct2, THEN conjunct2, THEN conjunct2,
        THEN conjunct1, rule_format, of 0 1] by simp
  have d: "fillMissingElevation [NaN, NInf] = [Num 0, Num 0]"
    using fillMissingElevation_finite_filled[of "[NaN, NInf]", THEN conjunct2, THEN conjunct2, THEN conjunct2, THEN conjunct2,
        THEN conjunct2] by (simp add: nth_Cons' numeral_2_eq_2 less_Suc_eq)
  from a b c d show ?thesis by blast
qed

subsection \<open>Track resampling\<close>


lemma targetsLoop_grid:
  assumes "0 < step"
  shows "n = nat \<lceil>(T - d) / step\<rceil> \<Longrightarrow>
         targetsLoop (Num T) (Num step) (Num d) (map Num acc)
         = Some (map Num (acc @ map (\<lambda>k. d + real k * step) [0..<n]))"
proof (induction n arbitrary: d acc)
  case 0
  then have "(T - d) / step \<le> 0" by linarith
  then have "T - d \<le> 0" using assms by (simp add: divide_le_0_iff)
  then show ?case by (subst targetsLoop.simps) simp
next
  case (Suc n)
  then have "0 < \<lceil>(T - d) / step\<rceil>" by linarith
  then have "0 < (T - d) / step" by (simp add: ceiling_less_iff less_ceiling_iff)
  then have lt: "d < T" using assms by (simp add: zero_less_divide_iff)
  have "(T - (d + step)) / step = (T - d) / step - 1"
    using assms by (simp add: field_simps)
  then have n: "n = nat \<lceil>(T - (d + step)) / step\<rceil>" using Suc.prems by simp
  have "targetsLoop (Num T) (Num step) (Num d) (map Num acc)
        = targetsLoop (Num T) (Num step) (Num (d + step)) (map Num (acc @ [d]))"
    using lt by (subst targetsLoop.simps) simp
  also have "\<dots> = Some (map Num ((acc @ [d]) @ map (\<lambda>k. d + step + real k * step) [0..<n]))"
    by (rule Suc.IH[OF n])
  also have "(acc @ [d]) @ map (\<lambda>k. d + step + real k * step) [0..<n]
             = acc @ map (\<lambda>k. d + real k * step) [0..<Suc n]"
    by (simp add: upt_conv_Cons map_Suc_upt[symmetric] algebra_simps del: upt_Suc)
  finally show ?case .
qed

lemma advancePointer_ge: "j \<le> advancePointer cum target j"
proof (induction cum target j rule: advancePointer.induct)
  case (1 cum target j)
  show ?case
  proof (cases "j < length cum \<and> cum ! j < target")
    case True
    from 1[OF this] True show ?thesis by (subst advancePointer.simps) simp
  next
    case False
    then show ?thesis by (subst advancePointer.simps) auto
  qed
qed

lemma resampleLoop_distances:
  assumes "2 \<le> length cum" "length pts = length cum"
  shows "1 \<le> j \<Longrightarrow> \<exists>rs. resampleLoop pts cum targets i j = Inr rs \<and> map distanceM rs = targets"
proof (induction targets arbitrary: i j)
  case Nil
  then show ?case by simp
next
  case (Cons target targets)
  define j1 where "j1 = advancePointer cum target j"
  define j2 where "j2 = (if j1 \<ge> length cum then length cum - 1 else j1)"
  have "1 \<le> j1" using Cons.prems advancePointer_ge[of j cum target] by (simp add: j1_def)
  then have j2: "1 \<le> j2" "j2 < length cum" using assms by (auto simp: j2_def)
  from Cons.IH[OF j2(1), of "i + 1"] obtain rs where
    rs: "resampleLoop pts cum targets (i + 1) j2 = Inr rs" "map distanceM rs = targets" by blast
  show ?case
    using j2 assms rs
    by (simp add: Let_def j1_def[symmetric] j2_def[symmetric])
qed






subsection \<open>The pacing computation\<close>

lemma elevationTotalsLoop_Num:
  "map ele pts = map Num es \<Longrightarrow>
   elevationTotalsLoop pts (Num p, Num m) = (Num (p + spec_elevation_gain es), Num (m + spec_elevation_loss es))"
proof (induction es arbitrary: pts p m)
  case Nil
  then show ?case by (simp add: spec_elevation_gain_def spec_elevation_loss_def spec_deltas_def)
next
  case (Cons e es)
  then obtain a pts' where pts: "pts = a # pts'" "ele a = Num e" "map ele pts' = map Num es"
    by (cases pts) auto
  show ?case
  proof (cases es)
    case Nil
    then have "pts' = []" using pts by simp
    then show ?thesis using pts Nil
      by (simp add: spec_elevation_gain_def spec_elevation_loss_def spec_deltas_def)
  next
    case (Cons e' es')
    then obtain b rest where pts': "pts' = b # rest" "ele b = Num e'"
      using pts by (cases pts') auto
    have gl: "spec_elevation_gain (e # es) = (if 0 < e' - e then e' - e else 0) + spec_elevation_gain es"
      "spec_elevation_loss (e # es) = (if e' - e < 0 then \<bar>e' - e\<bar> else 0) + spec_elevation_loss es"
      using Cons by (simp_all add: spec_elevation_gain_def spec_elevation_loss_def spec_deltas_def)
    show ?thesis
      using pts pts' Cons.IH[OF pts(3)] gl
      by (simp add: Let_def minus_jsnum_def)
  qed
qed

lemma parseGpxFile_finite:
  assumes "parseGpxFile trkpts = Inr rawPoints"
  shows "2 \<le> length rawPoints \<and> (\<forall>p \<in> set rawPoints. isFinite (lat p) \<and> isFinite (lon p) \<and> isFinite (ele p))"
  using assms
  by (auto simp: parseGpxFile_def Let_def split: if_splits option.splits)

lemma finite_list_Num:
  "\<forall>x \<in> set xs. isFinite x \<Longrightarrow> \<exists>rs. xs = map Num rs"
proof (induction xs)
  case Nil
  then show ?case by simp
next
  case (Cons x xs)
  then obtain rs where "xs = map Num rs" by auto
  moreover from Cons.prems obtain r where "x = Num r" by (cases x) auto
  ultimately have "x # xs = map Num (r # rs)" by simp
  then show ?case ..
qed


lemma calculatePacing_Inr:
  assumes "calculatePacing xmlContent targetTime profile prudence checkpoints restPeriods
             segmentLengthM smoothingWindow = Some (Inr result)"
  shows "\<exists>rawPoints resampledPoints targetTotalSec.
           parseGpxFile xmlContent = Inr rawPoints
         \<and> resamplePoints (conditionedPoints rawPoints smoothingWindow)
              (cumulativeDistancesOf (conditionedPoints rawPoints smoothingWindow)) segmentLengthM
             = Some (Inr resampledPoints)
         \<and> parseTimeToSeconds targetTime = Inr targetTotalSec
         \<and> \<not> targetTotalSec - totalStopSecOf checkpoints restPeriods \<le> Num 0
         \<and> result = pacingResultOf rawPoints
              (fst (elevationTotalsLoop rawPoints (Num 0, Num 0)))
              (snd (elevationTotalsLoop rawPoints (Num 0, Num 0)))
              (last (cumulativeDistancesOf (conditionedPoints rawPoints smoothingWindow)) / Num 1000)
              (makeSegments 1 resampledPoints)
              (targetTotalSec - totalStopSecOf checkpoints restPeriods)
              profile prudence checkpoints"
  using assms
  unfolding calculatePacing_def Let_def
  by (auto split: sum.splits option.splits if_splits prod.splits)

lemma calculatePacing_checked:
  assumes "parseGpxFile xmlContent = Inr rawPoints"
    and "resamplePoints (conditionedPoints rawPoints smoothingWindow)
              (cumulativeDistancesOf (conditionedPoints rawPoints smoothingWindow)) segmentLengthM
             = Some (Inr resampledPoints)"
    and "parseTimeToSeconds targetTime = Inr targetTotalSec"
  shows "calculatePacing xmlContent targetTime profile prudence checkpoints restPeriods
             segmentLengthM smoothingWindow =
         (if targetTotalSec - totalStopSecOf checkpoints restPeriods \<le> Num 0
          then Some (Inl StopTimeError)
          else Some (Inr (pacingResultOf rawPoints
              (fst (elevationTotalsLoop rawPoints (Num 0, Num 0)))
              (snd (elevationTotalsLoop rawPoints (Num 0, Num 0)))
              (last (cumulativeDistancesOf (conditionedPoints rawPoints smoothingWindow)) / Num 1000)
              (makeSegments 1 resampledPoints)
              (targetTotalSec - totalStopSecOf checkpoints restPeriods)
              profile prudence checkpoints)))"
  using assms
  unfolding calculatePacing_def Let_def
  by (simp split: prod.splits)


lemma length_fillMissingElevation [simp]:
  "length (fillMissingElevation es) = length es"
  by (simp add: fillMissingElevation_def)

lemma length_smoothElevation [simp]:
  "length (smoothElevation es w) = length es"
  by (simp add: smoothElevation_def Let_def)

lemma length_conditionedPoints [simp]:
  "length (conditionedPoints rawPoints w) = length rawPoints"
  by (simp add: conditionedPoints_def Let_def)

lemma finiteOrNaN_simps [simp]:
  "finiteOrNaN (Num a)" "finiteOrNaN NaN" "\<not> finiteOrNaN PInf" "\<not> finiteOrNaN NInf"
  by (simp_all add: finiteOrNaN_def)

lemma finiteOrNaN_plus: "finiteOrNaN a \<Longrightarrow> finiteOrNaN b \<Longrightarrow> finiteOrNaN (a + b)"
  by (cases a; cases b) simp_all

lemma finiteOrNaN_times: "finiteOrNaN a \<Longrightarrow> finiteOrNaN b \<Longrightarrow> finiteOrNaN (a * b)"
  by (cases a; cases b) simp_all

lemma finiteOrNaN_minus: "finiteOrNaN a \<Longrightarrow> finiteOrNaN b \<Longrightarrow> finiteOrNaN (a - b)"
  by (cases a; cases b) (simp_all add: minus_jsnum_def)

lemma finiteOrNaN_sqrt: "finiteOrNaN a \<Longrightarrow> finiteOrNaN (js_sqrt a)"
  by (cases a) simp_all

lemma finiteOrNaN_atan2: "finiteOrNaN (js_atan2 a b)"
  by (cases a; cases b) simp_all

lemma haversineDistance_finiteOrNaN: "finiteOrNaN (haversineDistance a b)"
  unfolding haversineDistance_def Let_def
  by (intro finiteOrNaN_times finiteOrNaN_atan2) simp_all

lemma cumulativeLoop_props:
  "finiteOrNaN previous \<Longrightarrow>
   length (cumulativeLoop pts previous) = length pts - 1
   \<and> (\<forall>d \<in> set (cumulativeLoop pts previous). finiteOrNaN d)"
proof (induction pts previous rule: cumulativeLoop.induct)
  case (1 a b rest previous)
  have "finiteOrNaN (previous + haversineDistance a b)"
    using "1.prems" haversineDistance_finiteOrNaN by (rule finiteOrNaN_plus)
  from "1.IH"[OF refl this] this show ?case by (simp add: Let_def)
qed simp_all

lemma cumulativeDistancesOf_props:
  assumes "pts \<noteq> []"
  shows "length (cumulativeDistancesOf pts) = length pts"
    and "finiteOrNaN (last (cumulativeDistancesOf pts))"
proof -
  have p: "length (cumulativeLoop pts (Num 0)) = length pts - 1
   \<and> (\<forall>d \<in> set (cumulativeLoop pts (Num 0)). finiteOrNaN d)"
    by (rule cumulativeLoop_props) simp
  then show "length (cumulativeDistancesOf pts) = length pts"
    using assms by (cases pts) (simp_all add: cumulativeDistancesOf_def)
  have "\<forall>d \<in> set (cumulativeDistancesOf pts). finiteOrNaN d"
    using p by (simp add: cumulativeDistancesOf_def)
  moreover have "last (cumulativeDistancesOf pts) \<in> set (cumulativeDistancesOf pts)"
    by (rule last_in_set) (simp add: cumulativeDistancesOf_def)
  ultimately show "finiteOrNaN (last (cumulativeDistancesOf pts))" by blast
qed

lemma targetsLoop_returns:
  assumes "0 < step" "finiteOrNaN totalD"
  shows "\<exists>targets. targetsLoop totalD (Num step) (Num 0) [] = Some targets"
proof (cases totalD)
  case (Num T)
  from targetsLoop_grid[OF assms(1) refl, of T 0 "[]"] show ?thesis
    unfolding Num by simp
next
  case NaN
  then show ?thesis by (subst targetsLoop.simps) simp
qed (use assms(2) in simp_all)

lemma resamplePoints_returns:
  assumes "2 \<le> length pts" "length cum = length pts" "finiteOrNaN (last cum)" "0 < step"
  shows "\<exists>rs. resamplePoints pts cum (Num step) = Some (Inr rs)"
proof -
  have ne: "cum \<noteq> []" using assms(1,2) by auto
  from targetsLoop_returns[OF assms(4,3)] obtain targets where
    t: "targetsLoop (last cum) (Num step) (Num 0) [] = Some targets" by blast
  have len: "2 \<le> length cum" "length pts = length cum" using assms(1,2) by simp_all
  from resampleLoop_distances[OF len, of 1 "targets @ [last cum]" 0] obtain rs where
    "resampleLoop pts cum (targets @ [last cum]) 0 1 = Inr rs" by auto
  then show ?thesis using ne t by (simp add: resamplePoints_def Let_def)
qed

lemma calculatePacing_resample_returns:
  assumes "parseGpxFile xmlContent = Inr rawPoints" "0 < step"
  shows "\<exists>rs. resamplePoints (conditionedPoints rawPoints w)
              (cumulativeDistancesOf (conditionedPoints rawPoints w)) (Num step) = Some (Inr rs)"
proof -
  have len: "2 \<le> length rawPoints" using parseGpxFile_finite[OF assms(1)] by simp
  then have ne: "conditionedPoints rawPoints w \<noteq> []" by (auto simp flip: length_0_conv)
  show ?thesis
    using len cumulativeDistancesOf_props[OF ne] assms(2)
    by (intro resamplePoints_returns) simp_all
qed





text \<open>
  Claim C4. Whenever the pacing computation returns a result, the elevations of the raw
  points are finite numbers, the accumulators of step 2 are the sum of the positive
  consecutive spec_deltas of these raw elevations (gain) and the sum of the absolute values of
  the negative ones (loss), a zero delta adding to neither, and the result's
  \<open>dPlusMAllPoints\<close> and \<open>dMinusMAllPoints\<close> are these two sums passed through
  \<open>Math.round\<close>. The smoothed elevations do not enter.
\<close>

theorem allPoints_totals_from_raw_elevations:
  assumes "calculatePacing xmlContent targetTime profile prudence checkpoints restPeriods
             segmentLengthM smoothingWindow = Some (Inr result)"
  shows "\<exists>rawPoints es.
           parseGpxFile xmlContent = Inr rawPoints
         \<and> map ele rawPoints = map Num es
         \<and> elevationTotalsLoop rawPoints (Num 0, Num 0)
             = (Num (spec_elevation_gain es), Num (spec_elevation_loss es))
         \<and> dPlusMAllPoints (totalsOf result) = js_round (Num (spec_elevation_gain es))
         \<and> dMinusMAllPoints (totalsOf result) = js_round (Num (spec_elevation_loss es))"
proof -
  from calculatePacing_Inr[OF assms] obtain rawPoints resampledPoints targetTotalSec where
    raw: "parseGpxFile xmlContent = Inr rawPoints"
    and res: "result = pacingResultOf rawPoints
              (fst (elevationTotalsLoop rawPoints (Num 0, Num 0)))
              (snd (elevationTotalsLoop rawPoints (Num 0, Num 0)))
              (last (cumulativeDistancesOf (conditionedPoints rawPoints smoothingWindow)) / Num 1000)
              (makeSegments 1 resampledPoints)
              (targetTotalSec - totalStopSecOf checkpoints restPeriods)
              profile prudence checkpoints"
    by blast
  have "\<forall>x \<in> set (map ele rawPoints). isFinite x"
    using parseGpxFile_finite[OF raw] by simp
  from finite_list_Num[OF this] obtain es where es: "map ele rawPoints = map Num es" by blast
  have tot: "elevationTotalsLoop rawPoints (Num 0, Num 0)
             = (Num (spec_elevation_gain es), Num (spec_elevation_loss es))"
    using elevationTotalsLoop_Num[OF es, of 0 0] by simp
  have "dPlusMAllPoints (totalsOf result) = js_round (Num (spec_elevation_gain es))"
    "dMinusMAllPoints (totalsOf result) = js_round (Num (spec_elevation_loss es))"
    unfolding res pacingResultOf_def Let_def tot by simp_all
  with raw es tot show ?thesis by blast
qed


theorem allPoints_totals_from_raw_elevations_witness:
  "\<exists>result.
     calculatePacing
       [(Num 45, Num 6, Some (Num 100)), (Num 45.001, Num 6, Some (Num 100.4)),
        (PInf, Num 6, Some (Num 5000)), (Num 45.002, Num 6.001, None),
        (Num 45.003, Num 6.001, Some (Num 90))]
       ''01:00:00'' ''trained'' (Num (1/2)) [] (Num 0, Num 0) (Num 250) 9 = Some (Inr result)
   \<and> dPlusMAllPoints (totalsOf result) = Num 90
   \<and> dMinusMAllPoints (totalsOf result) = Num 100"
proof -
  let ?xml = "[(Num 45, Num 6, Some (Num 100)), (Num 45.001, Num 6, Some (Num 100.4)),
        (PInf, Num 6, Some (Num 5000)), (Num 45.002, Num 6.001, None),
        (Num 45.003, Num 6.001, Some (Num 90))]"
  let ?raw = "[\<lparr>lat = Num 45, lon = Num 6, ele = Num 100\<rparr>,
      \<lparr>lat = Num 45.001, lon = Num 6, ele = Num 100.4\<rparr>,
      \<lparr>lat = Num 45.002, lon = Num 6.001, ele = Num 0\<rparr>,
      \<lparr>lat = Num 45.003, lon = Num 6.001, ele = Num 90\<rparr>]"
  have raw: "parseGpxFile ?xml = Inr ?raw"
    by (simp add: parseGpxFile_def)
  from calculatePacing_resample_returns[OF raw, of 250 9] obtain rs where
    rs: "resamplePoints (conditionedPoints ?raw 9)
              (cumulativeDistancesOf (conditionedPoints ?raw 9)) (Num 250) = Some (Inr rs)"
    by auto
  have t: "parseTimeToSeconds ''01:00:00'' = Inr (Num 3600)"
    by (simp add: parseTimeToSeconds_def parseInt_def trim_def isSpace_def isDigit_def
        digitsValue_def Let_def)
  have stop: "totalStopSecOf [] (Num 0, Num 0) = Num 0"
    by (simp add: totalStopSecOf_def orZero_def)
  from calculatePacing_checked[OF raw rs t, of "''trained''" "Num (1/2)" "[]" "(Num 0, Num 0)"]
  obtain result where result: "calculatePacing ?xml ''01:00:00'' ''trained'' (Num (1/2)) []
       (Num 0, Num 0) (Num 250) 9 = Some (Inr result)"
    by (simp add: stop minus_jsnum_def)
  from allPoints_totals_from_raw_elevations[OF result] obtain rawPoints es where
    es: "parseGpxFile ?xml = Inr rawPoints" "map ele rawPoints = map Num es"
    "dPlusMAllPoints (totalsOf result) = js_round (Num (spec_elevation_gain es))"
    "dMinusMAllPoints (totalsOf result) = js_round (Num (spec_elevation_loss es))"
    by blast
  from es(1) raw have "rawPoints = ?raw" by simp
  with es(2) have "es = [100, 100.4, 0, 90]" by auto
  with es(3,4) have "dPlusMAllPoints (totalsOf result) = Num 90"
    "dMinusMAllPoints (totalsOf result) = Num 100"
    by (simp_all add: spec_elevation_gain_def spec_elevation_loss_def spec_deltas_def)
  with result show ?thesis by blast
qed



lemma isRounded_js_round [simp]: "isRounded (js_round x)"
  by (cases x) (simp_all add: isRounded_def)

lemma isRounded_zero [simp]: "isRounded (Num 0)"
  by (simp add: isRounded_def)















end
